theory Spec2Isabelle
  imports Main "HOL-Library.Word" "HOL-Library.Sublist" "HOL-Library.AList"
begin

section \<open>JavaScript strings\<close>

text \<open>
  A JavaScript string is a sequence of 16-bit code units. String literals of the source
  are ASCII and are written \<open>str ''...''\<close>.
\<close>

type_synonym cu = "16 word"
type_synonym jsstr = "cu list"

definition str :: "string \<Rightarrow> jsstr" where
  "str s = map (\<lambda>c. of_char c) s"

text \<open>
  \<open>LineTerminator\<close> of ECMAScript: LF, CR, LS, PS. The regular expression atom \<open>.\<close>
  (without the \<open>s\<close> flag) matches every code unit except these.
\<close>

definition isLineTerminator :: "cu \<Rightarrow> bool" where
  "isLineTerminator c \<longleftrightarrow> c = 0x0A \<or> c = 0x0D \<or> c = 0x2028 \<or> c = 0x2029"

text \<open>
  \<open>WhiteSpace\<close> of ECMAScript: TAB, VT, FF, ZWNBSP and the code points of category Zs.
  \<open>String.prototype.trim\<close> removes white space and line terminators from both ends.
\<close>

definition isWhiteSpace :: "cu \<Rightarrow> bool" where
  "isWhiteSpace c \<longleftrightarrow>
     c = 0x09 \<or> c = 0x0B \<or> c = 0x0C \<or> c = 0x20 \<or> c = 0xA0 \<or> c = 0x1680 \<or>
     (0x2000 \<le> c \<and> c \<le> 0x200A) \<or> c = 0x202F \<or> c = 0x205F \<or> c = 0x3000 \<or> c = 0xFEFF"

definition isTrimmed :: "cu \<Rightarrow> bool" where
  "isTrimmed c \<longleftrightarrow> isWhiteSpace c \<or> isLineTerminator c"

definition trim :: "jsstr \<Rightarrow> jsstr" where
  "trim s = rev (dropWhile isTrimmed (rev (dropWhile isTrimmed s)))"

text \<open>
  \<open>String.prototype.split\<close> with a one-character separator and no limit: the pieces
  between the separators, in order; never an empty array (so the first branch of the
  inner \<open>case\<close> is never taken).
\<close>

fun split :: "cu \<Rightarrow> jsstr \<Rightarrow> jsstr list" where
  "split sep [] = [[]]"
| "split sep (c # cs) =
     (if c = sep then [] # split sep cs
      else (case split sep cs of [] \<Rightarrow> [[c]] | p # ps \<Rightarrow> (c # p) # ps))"

text \<open>Array destructuring \<open>[a, b] = xs\<close>: a missing element is \<open>undefined\<close>.\<close>

definition elem :: "'a list \<Rightarrow> nat \<Rightarrow> 'a option" where
  "elem xs i = (if i < length xs then Some (xs ! i) else None)"

section \<open>The regular expression of resolveGithubProject\<close>

text \<open>
  \<^verbatim>\<open>/github.com[:/](.+?)(?:\.git)?$/i\<close>

  Under the \<open>i\<close> flag (and no \<open>u\<close> flag) a code unit is compared after
  \<open>Canonicalize\<close>: it is upper-cased unless that would map a code unit of 128 or more to
  one below 128. The pattern characters here are ASCII lower-case letters and
  punctuation, so an input code unit matches a pattern letter exactly when it is that
  letter or its ASCII upper-case form, and matches a punctuation character exactly
  when it is equal to it.
\<close>

definition ci :: "cu \<Rightarrow> cu \<Rightarrow> bool" where
  "ci p c \<longleftrightarrow> c = p \<or> (0x61 \<le> p \<and> p \<le> 0x7A \<and> c = p - 0x20)"

text \<open>One pattern element: a literal character, the wildcard \<open>.\<close>, or the class \<open>[:/]\<close>.\<close>

datatype atom = Lit cu | Dot | Cls "cu list"

fun atom_matches :: "atom \<Rightarrow> cu \<Rightarrow> bool" where
  "atom_matches (Lit p) c = ci p c"
| "atom_matches Dot c = (\<not> isLineTerminator c)"
| "atom_matches (Cls ps) c = list_ex (\<lambda>p. ci p c) ps"

text \<open>A sequence of one-character atoms matched at the front of the input; the rest is returned.\<close>

fun match_atoms :: "atom list \<Rightarrow> jsstr \<Rightarrow> jsstr option" where
  "match_atoms [] s = Some s"
| "match_atoms (a # as) [] = None"
| "match_atoms (a # as) (c # cs) = (if atom_matches a c then match_atoms as cs else None)"

definition marker :: "atom list" where
  "marker = map Lit (str ''github'') @ [Dot] @ map Lit (str ''com'') @ [Cls (str '':/'')]"

definition dot_git :: "atom list" where
  "dot_git = map Lit (str ''.git'')"

text \<open>
  The continuation after the capture group: \<^verbatim>\<open>(?:\.git)?$\<close>. The optional group is
  greedy, so it is tried first; \<open>$\<close> (no \<open>m\<close> flag) holds only at the end of the input.
\<close>

definition tail_matches :: "jsstr \<Rightarrow> bool" where
  "tail_matches s \<longleftrightarrow> match_atoms dot_git s = Some [] \<or> s = []"

text \<open>
  The lazy group \<^verbatim>\<open>(.+?)\<close>: \<open>capture acc s\<close> has consumed \<open>acc\<close> (at least one
  code unit) and tries the continuation before it takes one more code unit.
\<close>

fun capture :: "jsstr \<Rightarrow> jsstr \<Rightarrow> jsstr option" where
  "capture acc [] = (if tail_matches [] then Some acc else None)"
| "capture acc (c # cs) =
     (if tail_matches (c # cs) then Some acc
      else if atom_matches Dot c then capture (acc @ [c]) cs
      else None)"

definition group1 :: "jsstr \<Rightarrow> jsstr option" where
  "group1 s = (case s of [] \<Rightarrow> None
               | c # cs \<Rightarrow> if atom_matches Dot c then capture [c] cs else None)"

text \<open>The whole pattern tried at the front of the input; the result is capture group 1.\<close>

definition match_here :: "jsstr \<Rightarrow> jsstr option" where
  "match_here s = (case match_atoms marker s of None \<Rightarrow> None | Some r \<Rightarrow> group1 r)"

text \<open>\<open>String.prototype.match\<close>: the first start index at which the pattern matches.\<close>

fun regex_match :: "jsstr \<Rightarrow> jsstr option" where
  "regex_match [] = match_here []"
| "regex_match (c # cs) =
     (case match_here (c # cs) of Some g \<Rightarrow> Some g | None \<Rightarrow> regex_match cs)"

section \<open>Errors and the git environment\<close>

text \<open>A thrown \<open>Error\<close> object, identified by its message.\<close>

datatype js_error = Error jsstr

text \<open>
  \<open>execSync(cmd, {cwd: dir})\<close>: the standard output of the command, or a thrown error
  (the command failed or could not be started). The repository on disk is not changed by
  the program, so the answer is a function of the directory and the command.
\<close>

record git_env =
  cwd :: jsstr
  exec :: "jsstr \<Rightarrow> jsstr \<Rightarrow> js_error + jsstr"

record RepositoryRef =
  owner :: jsstr
  repo :: jsstr

record GitHubRepositoryDescription = RepositoryRef +
  repoId :: jsstr

text \<open>
  \<open>run\<close>: the output as a string, trimmed. (The \<open>|| ''\<close> of the source replaces an
  empty string by an empty string.)
\<close>

definition run :: "'a git_env_scheme \<Rightarrow> jsstr \<Rightarrow> jsstr \<Rightarrow> js_error + jsstr" where
  "run g dir x = (case exec g dir x of Inl e \<Rightarrow> Inl e | Inr out \<Rightarrow> Inr (trim out))"

text \<open>
  The text that follows the branch name in the second git command: an at sign (code
  unit 0x40) and \<open>{upstream}\<close>.
\<close>

definition upstream_suffix :: jsstr where
  "upstream_suffix = 0x40 # str ''{upstream}''"

text \<open>
  The body of the \<open>try\<close> block of resolveGithubProject, in two parts. First the three
  git queries (source lines 195 to 201): the current branch, its upstream, and the fetch
  URL of the remote named before the first \<open>/\<close> of the upstream. An element missing from
  a destructured array is \<open>undefined\<close>, which a template literal prints as such.
\<close>

definition fetch_url :: "'a git_env_scheme \<Rightarrow> jsstr \<Rightarrow> js_error + jsstr" where
  "fetch_url g dir =
     (case run g dir (str ''git rev-parse --abbrev-ref HEAD'') of Inl e \<Rightarrow> Inl e
      | Inr currentBranch \<Rightarrow>
     (case run g dir (str ''git rev-parse --abbrev-ref '' @ currentBranch @ upstream_suffix) of
        Inl e \<Rightarrow> Inl e
      | Inr remoteBranch \<Rightarrow>
          run g dir (str ''git remote get-url '' @
                       (case elem (split 0x2F remoteBranch) 0 of
                          None \<Rightarrow> str ''undefined'' | Some origin \<Rightarrow> origin))))"

text \<open>
  Then the URL is matched and split (source lines 202 to 212). \<open>!owner\<close> holds for
  \<open>undefined\<close> and for the empty string. When neither \<open>owner\<close> nor \<open>repo\<close> is
  falsy all three values are strings, so the last branch below is never taken.
\<close>

definition falsy :: "jsstr option \<Rightarrow> bool" where
  "falsy v \<longleftrightarrow> (case v of None \<Rightarrow> True | Some s \<Rightarrow> s = [])"

definition parse_url :: "jsstr \<Rightarrow> js_error + GitHubRepositoryDescription" where
  "parse_url url =
     (let rid = regex_match url;
          parts = (case rid of None \<Rightarrow> [] | Some r \<Rightarrow> split 0x2F r);
          ow = elem parts 0;
          rp = elem parts 1
      in if falsy ow \<or> falsy rp then Inl (Error (str ''NOT_GITHUB_REMOTE''))
         else (case (ow, rp, rid) of
                 (Some ow', Some rp', Some rid') \<Rightarrow> Inr \<lparr>owner = ow', repo = rp', repoId = rid'\<rparr>
               | _ \<Rightarrow> Inl (Error (str ''NOT_GITHUB_REMOTE''))))"

definition resolve_try :: "'a git_env_scheme \<Rightarrow> jsstr \<Rightarrow> js_error + GitHubRepositoryDescription" where
  "resolve_try g dir = (case fetch_url g dir of Inl e \<Rightarrow> Inl e | Inr url \<Rightarrow> parse_url url)"

text \<open>The parameter \<open>dir = process.cwd()\<close>: the default stands in for a missing argument.\<close>

definition default_dir :: "'a git_env_scheme \<Rightarrow> jsstr option \<Rightarrow> jsstr" where
  "default_dir g dir_arg = (case dir_arg of None \<Rightarrow> cwd g | Some d \<Rightarrow> d)"

text \<open>
  resolveGithubProject: the \<open>catch\<close> clause replaces whatever was thrown in the
  \<open>try\<close> block.
\<close>

definition resolveGithubProject ::
  "'a git_env_scheme \<Rightarrow> jsstr option \<Rightarrow> js_error + GitHubRepositoryDescription" where
  "resolveGithubProject g dir_arg =
     (let dir = default_dir g dir_arg
      in case resolve_try g dir of
           Inl e \<Rightarrow> Inl (Error (str ''Not in a git repository?''))
         | Inr d \<Rightarrow> Inr d)"

section \<open>Credentials, the remote API and the terminal\<close>

text \<open>
  An entry of the credential file and the object that \<open>netrc()\<close> returns: host names
  with their entries, in the order of the object's keys.
\<close>

record NetRCEntry =
  machine :: "jsstr option"
  account :: "jsstr option"
  login :: "jsstr option"
  password :: "jsstr option"
  macdef :: "jsstr option"

type_synonym NetRC = "(jsstr \<times> NetRCEntry) list"

text \<open>An Octokit instance: the identity of the object and its \<open>auth\<close> option.\<close>

record Octokit =
  ident :: nat
  auth :: jsstr

text \<open>What the program does to the outside world, in the order in which it happens.\<close>

datatype event =
    GetAuthenticated jsstr
  | CreateDispatchEvent jsstr jsstr jsstr jsstr
  | PromptCredentials jsstr jsstr
  | PromptSave bool
  | NetrcSave NetRC
  | Write "jsstr list"

text \<open>
  The collaborators the program does not control: git, the remote API (called with the
  \<open>auth\<close> option of the client), the person at the terminal and the netrc library.
  Each answer of the first three may depend on everything that has happened so far.
  \<open>netrc_reread m\<close> is what \<open>netrc()\<close> reads from the credential file after
  \<open>netrc.save(m)\<close> has written it. The library writes the object as white-space
  separated text and parses that text again, so this need not be \<open>m\<close> itself (a login
  may be empty or contain white space); nothing is assumed about it.
\<close>

record env = git_env +
  getAuthenticated :: "event list \<Rightarrow> jsstr \<Rightarrow> js_error + unit"
  createDispatchEvent :: "event list \<Rightarrow> jsstr \<Rightarrow> jsstr \<Rightarrow> jsstr \<Rightarrow> jsstr \<Rightarrow> js_error + unit"
  answer_credentials :: "event list \<Rightarrow> jsstr \<times> jsstr"
  answer_save :: "event list \<Rightarrow> bool"
  netrc_reread :: "NetRC \<Rightarrow> NetRC"

text \<open>
  The state of the process: the module variable \<open>github\<close>, what \<open>netrc()\<close> reads
  from the credential file, the number of objects allocated, and the events so far.
\<close>

record world =
  github :: "Octokit option"
  netrc_file :: NetRC
  next_object :: nat
  trace :: "event list"

text \<open>
  An asynchronous call settles in one of three ways: the promise is fulfilled, it is
  rejected, or the process has exited in between.
\<close>

datatype 'a outcome = Return 'a | Throw js_error | Exit int

type_synonym 'a action = "world \<Rightarrow> 'a outcome \<times> world"

definition await :: "'a action \<Rightarrow> ('a \<Rightarrow> 'b action) \<Rightarrow> 'b action" where
  "await m f w = (case m w of
                    (Return a, w') \<Rightarrow> f a w'
                  | (Throw err, w') \<Rightarrow> (Throw err, w')
                  | (Exit n, w') \<Rightarrow> (Exit n, w'))"

definition emit :: "event \<Rightarrow> world \<Rightarrow> world" where
  "emit ev w = w\<lparr>trace := trace w @ [ev]\<rparr>"

text \<open>\<open>new octokit.Octokit({ auth: `token ${token}` })\<close>: a fresh object.\<close>

definition new_Octokit :: "jsstr \<Rightarrow> world \<Rightarrow> Octokit \<times> world" where
  "new_Octokit token w =
     (\<lparr>ident = next_object w, auth = str ''token '' @ token\<rparr>,
      w\<lparr>next_object := Suc (next_object w)\<rparr>)"

text \<open>
  \<open>netrc.save(machines)\<close> rewrites the credential file with the object it is given:
  the event \<open>NetrcSave machines\<close>. What \<open>netrc()\<close> reads from the file from then on
  is up to the library.
\<close>

definition netrc_save :: "env \<Rightarrow> NetRC \<Rightarrow> world \<Rightarrow> world" where
  "netrc_save e machines w =
     emit (NetrcSave machines) (w\<lparr>netrc_file := netrc_reread e machines\<rparr>)"

section \<open>checkCredentials\<close>

text \<open>
  The request is sent with the new client; a rejection is caught, its message is
  written after a \<open>!\<close>, and the result is \<open>false\<close>.
\<close>

definition checkCredentials :: "env \<Rightarrow> jsstr \<Rightarrow> bool action" where
  "checkCredentials e token w =
     (let (api, w1) = new_Octokit token w;
          w2 = emit (GetAuthenticated (auth api)) w1
      in case getAuthenticated e (trace w1) (auth api) of
           Inr _ \<Rightarrow> (Return True, w2)
         | Inl (Error msg) \<Rightarrow> (Return False, emit (Write [str ''!'', msg]) w2))"

section \<open>promptForToken\<close>

text \<open>The first \<open>inquirer.prompt\<close>: the user name and the personal access token.\<close>

definition ask_credentials :: "env \<Rightarrow> world \<Rightarrow> (jsstr \<times> jsstr) \<times> world" where
  "ask_credentials e w =
     (let (name, token) = answer_credentials e (trace w)
      in ((name, token), emit (PromptCredentials name token) w))"

text \<open>The second \<open>inquirer.prompt\<close>: whether to save the token.\<close>

definition ask_save :: "env \<Rightarrow> world \<Rightarrow> bool \<times> world" where
  "ask_save e w = (let save = answer_save e (trace w) in (save, emit (PromptSave save) w))"

text \<open>
  The recursive call passes \<open>rc\<close> and \<open>attempts + 1\<close> only, so \<open>maxAttempts\<close> takes
  its default 3 there. The first argument of \<open>write\<close> in the exit branch is the one
  character U+2715.
\<close>

function promptForToken :: "env \<Rightarrow> NetRC \<Rightarrow> int \<Rightarrow> int \<Rightarrow> jsstr action" where
  "promptForToken e rc attempts maxAttempts w =
     (if attempts \<ge> maxAttempts then
        (Exit 1, emit (Write [[0x2715], str ''Too many attempts'']) w)
      else
        (case ask_credentials e w of ((name, token), w1) \<Rightarrow>
          (case checkCredentials e token w1 of
             (Return True, w2) \<Rightarrow>
               (case ask_save e w2 of (save, w3) \<Rightarrow>
                  (Return token,
                   if save
                   then netrc_save e (AList.update (str ''github.com'')
                          \<lparr>machine = None, account = None, login = Some name,
                           password = Some token, macdef = None\<rparr> rc) w3
                   else w3))
           | (Return False, w2) \<Rightarrow> promptForToken e rc (attempts + 1) 3 w2
           | (Throw err, w2) \<Rightarrow> (Throw err, w2)
           | (Exit n, w2) \<Rightarrow> (Exit n, w2))))"
  by pat_completeness auto
termination
  by (relation "measure (\<lambda>(e, rc, attempts, maxAttempts, w).
                  if attempts \<ge> maxAttempts then 0 else 1 + nat (3 - attempts))") auto

declare promptForToken.simps [simp del]

section \<open>getToken and getGithubAPI\<close>

text \<open>\<open>rc[host]?.password\<close>\<close>

definition opt_password :: "NetRC \<Rightarrow> jsstr \<Rightarrow> jsstr option" where
  "opt_password rc host = (case map_of rc host of None \<Rightarrow> None | Some en \<Rightarrow> password en)"

text \<open>\<open>rc['github.com']?.password ?? rc['api.github.com']?.password\<close>\<close>

definition stored_token :: "NetRC \<Rightarrow> jsstr option" where
  "stored_token rc =
     (case opt_password rc (str ''github.com'') of
        Some t \<Rightarrow> Some t
      | None \<Rightarrow> opt_password rc (str ''api.github.com''))"

text \<open>
  A missing or empty token throws inside the \<open>try\<close> block, and the \<open>catch\<close> clause
  prompts with the records that were read.
\<close>

definition getToken :: "env \<Rightarrow> jsstr action" where
  "getToken e w =
     (let rc = netrc_file w
      in case stored_token rc of
           None \<Rightarrow> promptForToken e rc 0 3 w
         | Some token \<Rightarrow> if token = [] then promptForToken e rc 0 3 w else (Return token, w))"

text \<open>
  The module variable \<open>github\<close> is read here and assigned nowhere in the module.
  The second call of promptForToken has no arguments: it reads the credential file again.
\<close>

definition getGithubAPI :: "env \<Rightarrow> Octokit action" where
  "getGithubAPI e w =
     (case github w of
        Some api \<Rightarrow> (Return api, w)
      | None \<Rightarrow>
          await (getToken e) (\<lambda>token.
          await (checkCredentials e token) (\<lambda>ok.
          await (if \<not> ok then (\<lambda>w'. promptForToken e (netrc_file w') 0 3 w')
                 else (\<lambda>w'. (Return token, w'))) (\<lambda>token' w'.
          (case new_Octokit token' w' of (api, w'') \<Rightarrow> (Return api, w''))))) w)"

section \<open>dispatchEvent\<close>

text \<open>The first argument: a path, or a repository reference that may carry a \<open>repoId\<close>.\<close>

datatype target = Path jsstr | Ref RepositoryRef "jsstr option"

record dispatch_result =
  message :: jsstr

definition dispatchEvent :: "env \<Rightarrow> target \<Rightarrow> jsstr \<Rightarrow> dispatch_result action" where
  "dispatchEvent e to eventType w =
     (case (case to of
              Path dir \<Rightarrow> (case resolveGithubProject e (Some dir) of
                             Inl err \<Rightarrow> Inl err
                           | Inr d \<Rightarrow> Inr (owner d, repo d, Some (repoId d)))
            | Ref r rid \<Rightarrow> Inr (owner r, repo r, rid)) of
        Inl err \<Rightarrow> (Throw err, w)
      | Inr (ow, rp, rid) \<Rightarrow>
          (let repoId' = (case rid of None \<Rightarrow> ow @ str ''/'' @ rp | Some i \<Rightarrow> i)
           in await (getGithubAPI e) (\<lambda>api w1.
                (let w2 = emit (CreateDispatchEvent (auth api) ow rp eventType) w1
                 in case createDispatchEvent e (trace w1) (auth api) ow rp eventType of
                      Inl err \<Rightarrow> (Throw err, w2)
                    | Inr _ \<Rightarrow>
                        (Return \<lparr>message = str ''('' @ repoId' @ str '') '' @ eventType
                                            @ str '' event dispatched.''\<rparr>, w2))) w))"

section \<open>Vocabulary of the properties\<close>

text \<open>
  A name segment of a remote URL (an owner or a repository name): not empty, without
  \<open>/\<close> and without line terminators.
\<close>

definition name_segment :: "jsstr \<Rightarrow> bool" where
  "name_segment s \<longleftrightarrow> s \<noteq> [] \<and> list_all (\<lambda>c. c \<noteq> 0x2F \<and> \<not> isLineTerminator c) s"


text \<open>The string ends in \<open>.git\<close>, in any letter case.\<close>

definition ends_dot_git :: "jsstr \<Rightarrow> bool" where
  "ends_dot_git s \<longleftrightarrow> 4 \<le> length s \<and> match_atoms dot_git (drop (length s - 4) s) = Some []"

text \<open>The marker pattern matches at no index below \<open>n\<close> of the URL.\<close>

definition no_marker_before :: "nat \<Rightarrow> jsstr \<Rightarrow> bool" where
  "no_marker_before n url \<longleftrightarrow> list_all (\<lambda>k. match_atoms marker (drop k url) = None) [0..<n]"

text \<open>Projections of a trace.\<close>

fun is_save :: "event \<Rightarrow> bool" where
  "is_save (NetrcSave m) = True"
| "is_save _ = False"

fun is_prompt :: "event \<Rightarrow> bool" where
  "is_prompt (PromptCredentials n t) = True"
| "is_prompt (PromptSave b) = True"
| "is_prompt _ = False"

fun is_credentials_prompt :: "event \<Rightarrow> bool" where
  "is_credentials_prompt (PromptCredentials n t) = True"
| "is_credentials_prompt _ = False"

fun is_validation :: "event \<Rightarrow> bool" where
  "is_validation (GetAuthenticated a) = True"
| "is_validation _ = False"

fun is_dispatch :: "event \<Rightarrow> bool" where
  "is_dispatch (CreateDispatchEvent a ow rp ev) = True"
| "is_dispatch _ = False"

text \<open>
  The next \<open>n\<close> rounds of the interactive prompt, starting in \<open>w\<close>, each end with a
  token that the remote API rejects.
\<close>

fun attempts_fail :: "nat \<Rightarrow> env \<Rightarrow> world \<Rightarrow> bool" where
  "attempts_fail 0 e w = True"
| "attempts_fail (Suc n) e w =
     (case ask_credentials e w of ((name, token), w1) \<Rightarrow>
        (case checkCredentials e token w1 of
           (Return False, w2) \<Rightarrow> attempts_fail n e w2
         | _ \<Rightarrow> False))"

section \<open>Example environments\<close>

text \<open>
  A checkout on branch \<open>main\<close>; \<open>upstream\<close> and \<open>url\<close> are what git answers for the
  upstream of \<open>main\<close> and for the fetch URL of \<open>origin\<close>. Every other command fails.
\<close>

definition example_exec ::
  "(js_error + jsstr) \<Rightarrow> (js_error + jsstr) \<Rightarrow> jsstr \<Rightarrow> jsstr \<Rightarrow> js_error + jsstr" where
  "example_exec upstream url dir cmd =
     (if cmd = str ''git rev-parse --abbrev-ref HEAD'' then Inr (str ''main'' @ [0x0A])
      else if cmd = str ''git rev-parse --abbrev-ref main'' @ upstream_suffix then upstream
      else if cmd = str ''git remote get-url origin'' then url
      else Inl (Error (str ''fatal: not a git command'')))"

definition example_git :: "jsstr \<Rightarrow> git_env" where
  "example_git url =
     \<lparr>cwd = str ''/work'',
      exec = example_exec (Inr (str ''origin/main'' @ [0x0A])) (Inr (url @ [0x0A]))\<rparr>"

text \<open>A directory that is not a git repository: every command fails.\<close>

definition no_repository :: git_env where
  "no_repository =
     \<lparr>cwd = str ''/tmp'',
      exec = (\<lambda>dir cmd. Inl (Error (str ''fatal: not a git repository'')))\<rparr>"

definition no_upstream :: git_env where
  "no_upstream =
     \<lparr>cwd = str ''/work'',
      exec = example_exec (Inl (Error (str ''fatal: no upstream configured for branch'')))
                          (Inr (str ''git@github.com:jsg2021/github-api.git'' @ [0x0A]))\<rparr>"

definition no_remote :: git_env where
  "no_remote =
     \<lparr>cwd = str ''/work'',
      exec = example_exec (Inr (str ''origin/main'' @ [0x0A]))
                          (Inl (Error (str ''error: No such remote'')))\<rparr>"


text \<open>
  A remote API that accepts exactly the tokens in \<open>good\<close> and every dispatch, and a
  person who types the pairs of \<open>answers\<close> in turn and always answers \<open>save\<close> to the
  question whether to save. The logins and tokens of the examples are not empty and
  contain no white space; the file is read back as it was saved.
\<close>

definition example_env :: "jsstr list \<Rightarrow> (jsstr \<times> jsstr) list \<Rightarrow> bool \<Rightarrow> env" where
  "example_env good answers save =
     \<lparr>cwd = str ''/work'',
      exec = example_exec (Inr (str ''origin/main'' @ [0x0A]))
                          (Inr (str ''git@github.com:a/b.git'' @ [0x0A])),
      getAuthenticated = (\<lambda>tr a. if a \<in> set (map (\<lambda>t. str ''token '' @ t) good) then Inr ()
                                   else Inl (Error (str ''Bad credentials''))),
      createDispatchEvent = (\<lambda>tr a ow rp ev. Inr ()),
      answer_credentials = (\<lambda>tr. let k = length (filter is_credentials_prompt tr)
                                   in if k < length answers then answers ! k
                                      else (str ''octocat'', [])),
      answer_save = (\<lambda>tr. save),
      netrc_reread = (\<lambda>m. m)\<rparr>"

text \<open>A process that has just started, with the given credential file.\<close>

definition fresh_process :: "NetRC \<Rightarrow> world" where
  "fresh_process rc = \<lparr>github = None, netrc_file = rc, next_object = 0, trace = []\<rparr>"

definition login_entry :: "jsstr \<Rightarrow> jsstr \<Rightarrow> NetRCEntry" where
  "login_entry l p =
     \<lparr>machine = None, account = None, login = Some l, password = Some p, macdef = None\<rparr>"

text \<open>
  The API accepts the token \<open>ghp_valid\<close> only; the person types \<open>octocat\<close> and
  that token, and declines (or, in the second environment, agrees) to save it.
\<close>

definition accepting_env :: env where
  "accepting_env = example_env [str ''ghp_valid''] [(str ''octocat'', str ''ghp_valid'')] False"

definition saving_env :: env where
  "saving_env = example_env [str ''ghp_valid''] [(str ''octocat'', str ''ghp_valid'')] True"

text \<open>The API accepts no token, whatever the person types.\<close>

definition rejecting_env :: env where
  "rejecting_env =
     example_env [] [(str ''octocat'', str ''one''), (str ''octocat'', str ''two''),
                     (str ''octocat'', str ''three'')] True"

text \<open>
  Credential files: the valid token under \<open>github.com\<close>; the valid token under
  \<open>api.github.com\<close> only; a stale token under \<open>github.com\<close> in front of the valid one
  under \<open>api.github.com\<close>; and an entry for another host.
\<close>

definition stored_valid :: NetRC where
  "stored_valid = [(str ''github.com'', login_entry (str ''octocat'') (str ''ghp_valid''))]"

definition stored_valid_api :: NetRC where
  "stored_valid_api = [(str ''api.github.com'', login_entry (str ''octocat'') (str ''ghp_valid''))]"

definition stored_shadowed :: NetRC where
  "stored_shadowed =
     [(str ''github.com'', login_entry (str ''octocat'') (str ''ghp_stale'')),
      (str ''api.github.com'', login_entry (str ''octocat'') (str ''ghp_valid''))]"

definition stored_other :: NetRC where
  "stored_other = [(str ''gitlab.com'', login_entry (str ''me'') (str ''glpat''))]"

section \<open>Lemmas on strings and on the regular expression\<close>

lemma default_dir_simps [simp]:
  "default_dir g (Some d) = d"
  "default_dir g None = cwd g"
  by (simp_all add: default_dir_def)

lemma split_no_sep: "sep \<notin> set s \<Longrightarrow> split sep s = [s]"
  by (induction s) auto

lemma split_append: "sep \<notin> set a \<Longrightarrow> split sep (a @ sep # b) = a # split sep b"
  by (induction a) auto

lemma split_two: "sep \<notin> set a \<Longrightarrow> sep \<notin> set b \<Longrightarrow> split sep (a @ sep # b) = [a, b]"
  by (simp add: split_append split_no_sep)

lemma match_atoms_length: "match_atoms as s = Some r \<Longrightarrow> length s = length as + length r"
  by (induction as s rule: match_atoms.induct) (auto split: if_splits)

lemma match_atoms_append: "match_atoms as s = Some r \<Longrightarrow> match_atoms as (s @ t) = Some (r @ t)"
  by (induction as s rule: match_atoms.induct) (auto split: if_splits)

lemma match_atoms_Lit: "match_atoms (map Lit ps) v = Some [] \<Longrightarrow> list_all2 ci ps v"
proof (induction ps arbitrary: v)
  case Nil
  then show ?case by simp
next
  case (Cons p ps)
  then show ?case by (cases v) (auto split: if_splits)
qed

lemma Lit_match_atoms: "list_all2 ci ps v \<Longrightarrow> match_atoms (map Lit ps @ as) (v @ s) = match_atoms as s"
  by (induction ps v rule: list_all2_induct) auto

lemma dot_git_no_slash: "match_atoms dot_git v = Some [] \<Longrightarrow> 0x2F \<notin> set v"
proof -
  assume "match_atoms dot_git v = Some []"
  then have "list_all2 ci (str ''.git'') v" unfolding dot_git_def by (rule match_atoms_Lit)
  then show ?thesis
    by (auto simp: str_def ci_def list_all2_Cons1)
qed

lemma tail_matches_length: "tail_matches s \<Longrightarrow> s = [] \<or> length s = 4"
  by (auto simp: tail_matches_def dot_git_def str_def dest!: match_atoms_length)

lemma capture_append:
  assumes "list_all (\<lambda>c. \<not> isLineTerminator c) xs"
    and "\<And>u v. xs = u @ v \<Longrightarrow> v \<noteq> [] \<Longrightarrow> \<not> tail_matches (v @ sfx)"
    and "tail_matches sfx"
  shows "capture acc (xs @ sfx) = Some (acc @ xs)"
  using assms
proof (induction xs arbitrary: acc)
  case Nil
  then show ?case by (cases sfx) auto
next
  case (Cons x xs)
  have nt: "\<not> tail_matches ((x # xs) @ sfx)"
    using Cons.prems(2) [of "[]" "x # xs"] by simp
  have ih: "capture (acc @ [x]) (xs @ sfx) = Some ((acc @ [x]) @ xs)"
  proof (rule Cons.IH)
    show "list_all (\<lambda>c. \<not> isLineTerminator c) xs" using Cons.prems(1) by simp
    show "\<And>u v. xs = u @ v \<Longrightarrow> v \<noteq> [] \<Longrightarrow> \<not> tail_matches (v @ sfx)"
      using Cons.prems(2) by (metis append_Cons)
    show "tail_matches sfx" by (rule Cons.prems(3))
  qed
  show ?case using nt ih Cons.prems(1) by simp
qed


lemma group1_append:
  assumes "list_all (\<lambda>c. \<not> isLineTerminator c) xs" and "xs \<noteq> []"
    and "\<And>u v. xs = u @ v \<Longrightarrow> u \<noteq> [] \<Longrightarrow> v \<noteq> [] \<Longrightarrow> \<not> tail_matches (v @ sfx)"
    and "tail_matches sfx"
  shows "group1 (xs @ sfx) = Some xs"
proof -
  obtain x xs' where xs: "xs = x # xs'" using assms(2) by (cases xs) auto
  have "capture [x] (xs' @ sfx) = Some ([x] @ xs')"
  proof (rule capture_append)
    show "list_all (\<lambda>c. \<not> isLineTerminator c) xs'" using assms(1) xs by simp
    show "\<And>u v. xs' = u @ v \<Longrightarrow> v \<noteq> [] \<Longrightarrow> \<not> tail_matches (v @ sfx)"
      using assms(3) [of "x # _"] xs by simp
    show "tail_matches sfx" by (rule assms(4))
  qed
  then show ?thesis using assms(1) xs by (simp add: group1_def)
qed

lemma regex_match_skip:
  "no_marker_before (length pre) (pre @ s) \<Longrightarrow> s \<noteq> [] \<Longrightarrow> regex_match (pre @ s) = regex_match s"
proof (induction pre)
  case Nil
  then show ?case by simp
next
  case (Cons p pre)
  have all: "\<forall>k < Suc (length pre). match_atoms marker (drop k (p # pre @ s)) = None"
    using Cons.prems(1) by (auto simp: no_marker_before_def list_all_iff less_Suc_eq)
  have here: "match_atoms marker (p # pre @ s) = None"
    using all by (metis drop0 zero_less_Suc)
  have "\<forall>k < length pre. match_atoms marker (drop k (pre @ s)) = None"
  proof (intro allI impI)
    fix k assume "k < length pre"
    then have "match_atoms marker (drop (Suc k) (p # pre @ s)) = None"
      using all by (metis Suc_less_eq)
    then show "match_atoms marker (drop k (pre @ s)) = None" by simp
  qed
  then have "no_marker_before (length pre) (pre @ s)"
    by (simp add: no_marker_before_def list_all_iff)
  then have "regex_match (pre @ s) = regex_match s" using Cons.IH Cons.prems(2) by simp
  then show ?case using here by (simp add: match_here_def)
qed

lemma regex_match_here: "match_here s = Some r \<Longrightarrow> regex_match s = Some r"
  by (cases s) auto

lemma suffix_after_sep:
  assumes "u @ v = a @ x # b" and "x \<notin> set v"
  shows "\<exists>w. b = w @ v"
proof -
  from assms(1) consider w where "u = a @ w" "w @ v = x # b" | w where "a = u @ w" "v = w @ x # b"
    by (auto simp: append_eq_append_conv2)
  then show ?thesis
  proof cases
    case 1
    then show ?thesis using assms(2) by (cases w) auto
  next
    case 2
    then show ?thesis using assms(2) by auto
  qed
qed

lemma no_early_tail:
  assumes sfx: "match_atoms dot_git sfx = Some [] \<or> (sfx = [] \<and> \<not> ends_dot_git b)"
    and uv: "u @ v = a @ 0x2F # b" and v: "v \<noteq> []"
  shows "\<not> tail_matches (v @ sfx)"
proof
  assume tm: "tail_matches (v @ sfx)"
  then have len: "length (v @ sfx) = 4" using v by (auto dest: tail_matches_length)
  from sfx show False
  proof
    assume "match_atoms dot_git sfx = Some []"
    then have "length sfx = 4" by (auto simp: dot_git_def str_def dest: match_atoms_length)
    then show False using len v by simp
  next
    assume e: "sfx = [] \<and> \<not> ends_dot_git b"
    then have m: "match_atoms dot_git v = Some []" using tm v by (simp add: tail_matches_def)
    then have "0x2F \<notin> set v" by (rule dot_git_no_slash)
    then obtain w where "b = w @ v" using suffix_after_sep [OF uv] by blast
    then have "ends_dot_git b" using m len e by (simp add: ends_dot_git_def)
    then show False using e by simp
  qed
qed

lemma parse_url_marker:
  assumes mk: "match_atoms marker mk = Some []"
    and before: "no_marker_before (length pre) (pre @ mk @ ow @ 0x2F # rp @ sfx)"
    and ow: "name_segment ow" and rp: "name_segment rp"
    and sfx: "match_atoms dot_git sfx = Some [] \<or> (sfx = [] \<and> \<not> ends_dot_git rp)"
  shows "parse_url (pre @ mk @ ow @ 0x2F # rp @ sfx)
         = Inr \<lparr>owner = ow, repo = rp, repoId = ow @ 0x2F # rp\<rparr>"
proof -
  let ?xs = "ow @ 0x2F # rp"
  have nolt: "list_all (\<lambda>c. \<not> isLineTerminator c) ?xs"
    using ow rp by (auto simp: name_segment_def list_all_iff isLineTerminator_def)
  have tm: "tail_matches sfx" using sfx by (auto simp: tail_matches_def)
  have g: "group1 (?xs @ sfx) = Some ?xs"
  proof (rule group1_append [OF nolt _ _ tm])
    show "?xs \<noteq> []" by simp
    show "\<And>u v. ?xs = u @ v \<Longrightarrow> u \<noteq> [] \<Longrightarrow> v \<noteq> [] \<Longrightarrow> \<not> tail_matches (v @ sfx)"
      using no_early_tail [OF sfx] by metis
  qed
  have "match_atoms marker (mk @ ?xs @ sfx) = Some ([] @ ?xs @ sfx)"
    using mk by (rule match_atoms_append)
  then have "match_here (mk @ ?xs @ sfx) = Some ?xs"
    using g by (simp add: match_here_def)
  then have "regex_match (mk @ ?xs @ sfx) = Some ?xs" by (rule regex_match_here)
  moreover have "regex_match (pre @ mk @ ?xs @ sfx) = regex_match (mk @ ?xs @ sfx)"
    using before by (intro regex_match_skip) auto
  ultimately have r: "regex_match (pre @ mk @ ow @ 0x2F # rp @ sfx) = Some ?xs" by simp
  have sp: "split 0x2F ?xs = [ow, rp]"
    using ow rp by (intro split_two) (auto simp: name_segment_def list_all_iff)
  show ?thesis
    using ow rp unfolding parse_url_def r
    by (simp add: sp elem_def falsy_def name_segment_def)
qed

section \<open>resolveGithubProject: successful resolution\<close>






section \<open>resolveGithubProject: failure\<close>

text \<open>
  Claim C4. Whenever resolveGithubProject throws, the error carries the one message
  \<open>Not in a git repository?\<close>; and it throws that error for every cause: a git query
  that fails (no repository, no upstream, no remote), or a fetch URL from which no owner
  and repository can be taken.
\<close>

theorem resolveGithubProject_one_message:
  "(resolveGithubProject g dir = Inl err \<longrightarrow> err = Error (str ''Not in a git repository?''))
   \<and> (fetch_url g (default_dir g dir) = Inl cause
        \<or> (fetch_url g (default_dir g dir) = Inr url \<and> parse_url url = Inl cause)
        \<longrightarrow> resolveGithubProject g dir = Inl (Error (str ''Not in a git repository?'')))"
  by (auto simp: resolveGithubProject_def resolve_try_def split: sum.splits)


theorem resolveGithubProject_one_message_witness:
  "fetch_url no_repository (str ''/tmp'') = Inl (Error (str ''fatal: not a git repository''))
   \<and> resolveGithubProject no_repository (Some (str ''/tmp''))
       = Inl (Error (str ''Not in a git repository?''))
   \<and> fetch_url no_upstream (str ''/work'')
       = Inl (Error (str ''fatal: no upstream configured for branch''))
   \<and> resolveGithubProject no_upstream (Some (str ''/work''))
       = Inl (Error (str ''Not in a git repository?''))
   \<and> fetch_url no_remote (str ''/work'') = Inl (Error (str ''error: No such remote''))
   \<and> resolveGithubProject no_remote (Some (str ''/work''))
       = Inl (Error (str ''Not in a git repository?''))
   \<and> fetch_url (example_git (str ''git@gitlab.com:group/project.git'')) (str ''/work'')
       = Inr (str ''git@gitlab.com:group/project.git'')
   \<and> parse_url (str ''git@gitlab.com:group/project.git'') = Inl (Error (str ''NOT_GITHUB_REMOTE''))
   \<and> resolveGithubProject (example_git (str ''git@gitlab.com:group/project.git''))
        (Some (str ''/work''))
       = Inl (Error (str ''Not in a git repository?''))"
proof -
  have a: "fetch_url no_repository (str ''/tmp'') = Inl (Error (str ''fatal: not a git repository''))"
    by code_simp
  have b: "fetch_url no_upstream (str ''/work'')
       = Inl (Error (str ''fatal: no upstream configured for branch''))"
    by code_simp
  have c: "fetch_url no_remote (str ''/work'') = Inl (Error (str ''error: No such remote''))"
    by code_simp
  have d: "fetch_url (example_git (str ''git@gitlab.com:group/project.git'')) (str ''/work'')
       = Inr (str ''git@gitlab.com:group/project.git'')"
    by code_simp
  have d': "parse_url (str ''git@gitlab.com:group/project.git'') = Inl (Error (str ''NOT_GITHUB_REMOTE''))"
    by code_simp
  have ra: "resolveGithubProject no_repository (Some (str ''/tmp''))
       = Inl (Error (str ''Not in a git repository?''))"
    using a resolveGithubProject_one_message [of no_repository "Some (str ''/tmp'')" _
        "Error (str ''fatal: not a git repository'')", unfolded default_dir_simps] by blast
  have rb: "resolveGithubProject no_upstream (Some (str ''/work''))
       = Inl (Error (str ''Not in a git repository?''))"
    using b resolveGithubProject_one_message [of no_upstream "Some (str ''/work'')" _
        "Error (str ''fatal: no upstream configured for branch'')", unfolded default_dir_simps]
    by blast
  have rc: "resolveGithubProject no_remote (Some (str ''/work''))
       = Inl (Error (str ''Not in a git repository?''))"
    using c resolveGithubProject_one_message [of no_remote "Some (str ''/work'')" _
        "Error (str ''error: No such remote'')", unfolded default_dir_simps] by blast
  have rd: "resolveGithubProject (example_git (str ''git@gitlab.com:group/project.git''))
        (Some (str ''/work''))
       = Inl (Error (str ''Not in a git repository?''))"
    using d d' resolveGithubProject_one_message
        [of "example_git (str ''git@gitlab.com:group/project.git'')" "Some (str ''/work'')" _
            "Error (str ''NOT_GITHUB_REMOTE'')" "str ''git@gitlab.com:group/project.git''",
         unfolded default_dir_simps]
    by blast
  show ?thesis using a b c d d' ra rb rc rd by blast
qed

section \<open>resolveGithubProject: what the pattern accepts\<close>

text \<open>
  Claim C10, as the code has it. The marker is matched in any letter case, its dot
  accepts every code unit that is not a line terminator, and the match may start at any
  index. When the first place where the marker matches is followed by \<open>OWNER/REPO\<close>
  (with or without \<open>.git\<close>, in any letter case), resolveGithubProject returns that owner
  and repository.
\<close>

theorem resolveGithubProject_marker_anywhere:
  assumes url: "fetch_url g (default_dir g dir)
                  = Inr (pre @ G @ [c] @ M @ [sep] @ OWNER @ str ''/'' @ REPO @ sfx)"
    and G: "list_all2 ci (str ''github'') G"
    and c: "\<not> isLineTerminator c"
    and M: "list_all2 ci (str ''com'') M"
    and sep: "sep = 0x3A \<or> sep = 0x2F"
    and first: "no_marker_before (length pre)
                  (pre @ G @ [c] @ M @ [sep] @ OWNER @ str ''/'' @ REPO @ sfx)"
    and sfx: "list_all2 ci (str ''.git'') sfx \<or> (sfx = [] \<and> \<not> ends_dot_git REPO)"
    and ow: "name_segment OWNER" and rp: "name_segment REPO"
  shows "resolveGithubProject g dir
         = Inr \<lparr>owner = OWNER, repo = REPO, repoId = OWNER @ str ''/'' @ REPO\<rparr>"
proof -
  let ?mk = "G @ [c] @ M @ [sep]"
  have "match_atoms marker ?mk
        = match_atoms ([Dot] @ map Lit (str ''com'') @ [Cls (str '':/'')]) ([c] @ M @ [sep])"
    unfolding marker_def using Lit_match_atoms [OF G] by simp
  also have "\<dots> = match_atoms (map Lit (str ''com'') @ [Cls (str '':/'')]) (M @ [sep])"
    using c by simp
  also have "\<dots> = match_atoms [Cls (str '':/'')] [sep]"
    using Lit_match_atoms [OF M] by simp
  also have "\<dots> = Some []"
    using sep by (auto simp: str_def ci_def)
  finally have mk: "match_atoms marker ?mk = Some []" .
  have sfx': "match_atoms dot_git sfx = Some [] \<or> (sfx = [] \<and> \<not> ends_dot_git REPO)"
    using sfx Lit_match_atoms [of "str ''.git''" sfx "[]" "[]"] by (auto simp: dot_git_def)
  have nb: "no_marker_before (length pre) (pre @ ?mk @ OWNER @ 0x2F # REPO @ sfx)"
    using first by (simp add: str_def)
  have "parse_url (pre @ ?mk @ OWNER @ 0x2F # REPO @ sfx)
        = Inr \<lparr>owner = OWNER, repo = REPO, repoId = OWNER @ 0x2F # REPO\<rparr>"
    using mk nb ow rp sfx' by (rule parse_url_marker)
  then have "parse_url (pre @ G @ [c] @ M @ [sep] @ OWNER @ str ''/'' @ REPO @ sfx)
        = Inr \<lparr>owner = OWNER, repo = REPO, repoId = OWNER @ str ''/'' @ REPO\<rparr>"
    by (simp add: str_def)
  then show ?thesis using url by (simp add: resolveGithubProject_def resolve_try_def)
qed


theorem resolveGithubProject_marker_anywhere_witness:
  "fetch_url (example_git (str ''https://GitHub.com/octocat/Hello-World'')) (str ''/work'')
     = Inr (str ''https://'' @ str ''GitHub'' @ [0x2E] @ str ''com'' @ [0x2F]
            @ str ''octocat'' @ str ''/'' @ str ''Hello-World'' @ [])
   \<and> resolveGithubProject (example_git (str ''https://GitHub.com/octocat/Hello-World''))
        (Some (str ''/work''))
     = Inr \<lparr>owner = str ''octocat'', repo = str ''Hello-World'',
            repoId = str ''octocat'' @ str ''/'' @ str ''Hello-World''\<rparr>
   \<and> fetch_url (example_git (str ''ssh://git@my-githubXCOM:octocat/Hello-World.GIT'')) (str ''/work'')
     = Inr (str ''ssh://git@my-'' @ str ''github'' @ [0x58] @ str ''COM'' @ [0x3A]
            @ str ''octocat'' @ str ''/'' @ str ''Hello-World'' @ str ''.GIT'')
   \<and> resolveGithubProject (example_git (str ''ssh://git@my-githubXCOM:octocat/Hello-World.GIT''))
        (Some (str ''/work''))
     = Inr \<lparr>owner = str ''octocat'', repo = str ''Hello-World'',
            repoId = str ''octocat'' @ str ''/'' @ str ''Hello-World''\<rparr>"
proof -
  have f1: "fetch_url (example_git (str ''https://GitHub.com/octocat/Hello-World'')) (str ''/work'')
     = Inr (str ''https://'' @ str ''GitHub'' @ [0x2E] @ str ''com'' @ [0x2F]
            @ str ''octocat'' @ str ''/'' @ str ''Hello-World'' @ [])"
    by code_simp
  have f2: "fetch_url (example_git (str ''ssh://git@my-githubXCOM:octocat/Hello-World.GIT'')) (str ''/work'')
     = Inr (str ''ssh://git@my-'' @ str ''github'' @ [0x58] @ str ''COM'' @ [0x3A]
            @ str ''octocat'' @ str ''/'' @ str ''Hello-World'' @ str ''.GIT'')"
    by code_simp
  have n3: "name_segment (str ''octocat'')" and n4: "name_segment (str ''Hello-World'')"
    by code_simp+
  have g: "\<not> ends_dot_git (str ''Hello-World'')" by code_simp
  have c1: "list_all2 ci (str ''github'') (str ''GitHub'')" "list_all2 ci (str ''com'') (str ''com'')"
     "\<not> isLineTerminator 0x2E"
     "no_marker_before (length (str ''https://'')) (str ''https://'' @ str ''GitHub'' @ [0x2E] @ str ''com'' @ [0x2F]
            @ str ''octocat'' @ str ''/'' @ str ''Hello-World'' @ [])"
    by code_simp+
  have c2: "list_all2 ci (str ''github'') (str ''github'')" "list_all2 ci (str ''com'') (str ''COM'')"
     "\<not> isLineTerminator 0x58" "list_all2 ci (str ''.git'') (str ''.GIT'')"
     "no_marker_before (length (str ''ssh://git@my-'')) (str ''ssh://git@my-'' @ str ''github'' @ [0x58] @ str ''COM'' @ [0x3A]
            @ str ''octocat'' @ str ''/'' @ str ''Hello-World'' @ str ''.GIT'')"
    by code_simp+
  have r1: "resolveGithubProject (example_git (str ''https://GitHub.com/octocat/Hello-World''))
        (Some (str ''/work''))
     = Inr \<lparr>owner = str ''octocat'', repo = str ''Hello-World'',
            repoId = str ''octocat'' @ str ''/'' @ str ''Hello-World''\<rparr>"
    by (rule resolveGithubProject_marker_anywhere
              [of _ "Some (str ''/work'')", unfolded default_dir_simps,
               OF f1 c1(1) c1(3) c1(2) _ c1(4) _ n3 n4])
       (simp_all add: g)
  have r2: "resolveGithubProject (example_git (str ''ssh://git@my-githubXCOM:octocat/Hello-World.GIT''))
        (Some (str ''/work''))
     = Inr \<lparr>owner = str ''octocat'', repo = str ''Hello-World'',
            repoId = str ''octocat'' @ str ''/'' @ str ''Hello-World''\<rparr>"
    by (rule resolveGithubProject_marker_anywhere
              [of _ "Some (str ''/work'')", unfolded default_dir_simps,
               OF f2 c2(1) c2(3) c2(2) _ c2(5) _ n3 n4])
       (simp_all add: c2(4))
  show ?thesis using f1 f2 r1 r2 by blast
qed

text \<open>
  Claim C10, as it is stated, fails in two ways. A line feed between \<open>github\<close> and
  \<open>com\<close> is a character, but the dot does not accept it; and a marker that occurs
  before the one in front of \<open>OWNER/REPO\<close> is matched first, here with an empty owner
  segment after it. Both URLs are rejected.
\<close>

theorem resolveGithubProject_marker_any_character_counterexample:
  "fetch_url (example_git (str ''https://github'' @ [0x0A] @ str ''com/octocat/Hello-World''))
      (str ''/work'')
     = Inr (str ''https://'' @ str ''github'' @ [0x0A] @ str ''com'' @ str ''/''
            @ str ''octocat'' @ str ''/'' @ str ''Hello-World'')
   \<and> resolveGithubProject
        (example_git (str ''https://github'' @ [0x0A] @ str ''com/octocat/Hello-World''))
        (Some (str ''/work''))
     = Inl (Error (str ''Not in a git repository?''))
   \<and> fetch_url (example_git (str ''https://github.com//github.com/octocat/Hello-World''))
      (str ''/work'')
     = Inr (str ''https://github.com//'' @ str ''github'' @ str ''.'' @ str ''com'' @ str ''/''
            @ str ''octocat'' @ str ''/'' @ str ''Hello-World'')
   \<and> resolveGithubProject
        (example_git (str ''https://github.com//github.com/octocat/Hello-World''))
        (Some (str ''/work''))
     = Inl (Error (str ''Not in a git repository?''))"
  by code_simp

section \<open>Lemmas on the effects\<close>

lemma emit_simps [simp]:
  "trace (emit ev w) = trace w @ [ev]"
  "github (emit ev w) = github w"
  "netrc_file (emit ev w) = netrc_file w"
  "next_object (emit ev w) = next_object w"
  by (simp_all add: emit_def)

lemma netrc_save_simps [simp]:
  "trace (netrc_save e m w) = trace w @ [NetrcSave m]"
  "github (netrc_save e m w) = github w"
  "netrc_file (netrc_save e m w) = netrc_reread e m"
  "next_object (netrc_save e m w) = next_object w"
  by (simp_all add: netrc_save_def)

lemma checkCredentials_result:
  "checkCredentials e token w = (out, w') \<Longrightarrow>
     out = Return (\<not> isl (getAuthenticated e (trace w) (str ''token '' @ token)))
     \<and> github w' = github w \<and> netrc_file w' = netrc_file w
     \<and> next_object w' = Suc (next_object w)
     \<and> trace w' = trace w @ GetAuthenticated (str ''token '' @ token) #
          (case getAuthenticated e (trace w) (str ''token '' @ token) of
             Inr u \<Rightarrow> [] | Inl (Error msg) \<Rightarrow> [Write [str ''!'', msg]])"
  by (auto simp: checkCredentials_def new_Octokit_def Let_def split: sum.splits js_error.splits)

lemma ask_credentials_result:
  "ask_credentials e w = ((name, token), w1) \<Longrightarrow>
     (name, token) = answer_credentials e (trace w)
     \<and> github w1 = github w \<and> netrc_file w1 = netrc_file w \<and> next_object w1 = next_object w
     \<and> trace w1 = trace w @ [PromptCredentials name token]"
  by (auto simp: ask_credentials_def Let_def split: prod.splits)

lemma ask_save_result:
  "ask_save e w = (b, w1) \<Longrightarrow>
     b = answer_save e (trace w)
     \<and> github w1 = github w \<and> netrc_file w1 = netrc_file w \<and> next_object w1 = next_object w
     \<and> trace w1 = trace w @ [PromptSave b]"
  by (auto simp: ask_save_def Let_def)

text \<open>One round of the prompt that ends with a rejected token.\<close>

lemma failed_round:
  assumes "ask_credentials e w = ((name, token), w1)"
    and "checkCredentials e token w1 = (Return False, w2)"
  shows "github w2 = github w \<and> netrc_file w2 = netrc_file w
         \<and> (\<exists>msg. trace w2 = trace w @ [PromptCredentials name token,
                      GetAuthenticated (str ''token '' @ token), Write [str ''!'', msg]])"
proof -
  note a = ask_credentials_result [OF assms(1)]
  note c = checkCredentials_result [OF assms(2)]
  from c have "isl (getAuthenticated e (trace w1) (str ''token '' @ token))" by simp
  then obtain msg where "getAuthenticated e (trace w1) (str ''token '' @ token) = Inl (Error msg)"
    by (metis isl_def js_error.exhaust)
  then show ?thesis using a c by simp
qed

lemma promptForToken_exit:
  "maxAttempts \<le> attempts \<Longrightarrow>
     promptForToken e rc attempts maxAttempts w
       = (Exit 1, emit (Write [[0x2715], str ''Too many attempts'']) w)"
  by (simp add: promptForToken.simps)

lemma promptForToken_retry:
  assumes "attempts < maxAttempts"
    and "ask_credentials e w = ((name, token), w1)"
    and "checkCredentials e token w1 = (Return False, w2)"
  shows "promptForToken e rc attempts maxAttempts w = promptForToken e rc (attempts + 1) 3 w2"
  using assms by (subst promptForToken.simps) simp

lemma promptForToken_accept:
  assumes "attempts < maxAttempts"
    and "ask_credentials e w = ((name, token), w1)"
    and "checkCredentials e token w1 = (Return True, w2)"
    and "ask_save e w2 = (save, w3)"
  shows "promptForToken e rc attempts maxAttempts w
         = (Return token,
            if save
            then netrc_save e (AList.update (str ''github.com'')
                   \<lparr>machine = None, account = None, login = Some name,
                    password = Some token, macdef = None\<rparr> rc) w3
            else w3)"
  using assms by (subst promptForToken.simps) simp

lemma attempts_fail_Suc:
  "attempts_fail (Suc n) e w \<Longrightarrow>
     \<exists>name token w1 w2. ask_credentials e w = ((name, token), w1)
        \<and> checkCredentials e token w1 = (Return False, w2) \<and> attempts_fail n e w2"
  by (auto split: prod.splits outcome.splits bool.splits)

text \<open>At attempt 0 every bound of at least 1 lets the first round through.\<close>

lemma promptForToken_first_bound:
  "1 \<le> m \<Longrightarrow> promptForToken e rc 0 m w = promptForToken e rc 0 3 w"
  by (simp add: promptForToken.simps [of e rc 0])

text \<open>
  With the bound 3, \<open>n\<close> failing rounds from attempt \<open>3 - n\<close> on end in the exit branch.
\<close>

lemma failing_rounds:
  assumes "attempts_fail n e w" and "attempts + int n = 3"
  shows "\<exists>w' evs. promptForToken e rc attempts 3 w = (Exit 1, w')
           \<and> trace w' = trace w @ evs @ [Write [[0x2715], str ''Too many attempts'']]
           \<and> filter is_save evs = []
           \<and> length (filter is_credentials_prompt evs) = n
           \<and> length (filter is_validation evs) = n
           \<and> netrc_file w' = netrc_file w \<and> github w' = github w"
  using assms
proof (induction n arbitrary: attempts w)
  case 0
  then have "promptForToken e rc attempts 3 w
             = (Exit 1, emit (Write [[0x2715], str ''Too many attempts'']) w)"
    by (simp add: promptForToken_exit)
  then show ?case by simp
next
  case (Suc n)
  from attempts_fail_Suc [OF Suc.prems(1)] obtain name token w1 w2 where
    a: "ask_credentials e w = ((name, token), w1)"
    and c: "checkCredentials e token w1 = (Return False, w2)"
    and f: "attempts_fail n e w2" by blast
  have lt: "attempts < 3" using Suc.prems(2) by simp
  have step: "promptForToken e rc attempts 3 w = promptForToken e rc (attempts + 1) 3 w2"
    using lt a c by (rule promptForToken_retry)
  from failed_round [OF a c] obtain msg where
    fr: "github w2 = github w" "netrc_file w2 = netrc_file w"
      "trace w2 = trace w @ [PromptCredentials name token,
                      GetAuthenticated (str ''token '' @ token), Write [str ''!'', msg]]"
    by blast
  from Suc.IH [OF f, of "attempts + 1"] Suc.prems(2) obtain w' evs where
    ih: "promptForToken e rc (attempts + 1) 3 w2 = (Exit 1, w')"
      "trace w' = trace w2 @ evs @ [Write [[0x2715], str ''Too many attempts'']]"
      "filter is_save evs = []"
      "length (filter is_credentials_prompt evs) = n"
      "length (filter is_validation evs) = n"
      "netrc_file w' = netrc_file w2" "github w' = github w2"
    by auto
  let ?evs = "[PromptCredentials name token,
               GetAuthenticated (str ''token '' @ token), Write [str ''!'', msg]] @ evs"
  have "trace w' = trace w @ ?evs @ [Write [[0x2715], str ''Too many attempts'']]"
    using ih(2) fr(3) by simp
  moreover have "filter is_save ?evs = []" using ih(3) by simp
  moreover have "length (filter is_credentials_prompt ?evs) = Suc n" using ih(4) by simp
  moreover have "length (filter is_validation ?evs) = Suc n" using ih(5) by simp
  ultimately show ?case using step ih(1,6,7) fr(1,2) by metis
qed

text \<open>
  None of the functions behind getGithubAPI assigns the module variable or calls the
  dispatch endpoint.
\<close>

lemma promptForToken_frame:
  "promptForToken e rc attempts maxAttempts w = (out, w') \<Longrightarrow>
     github w' = github w \<and> (\<exists>evs. trace w' = trace w @ evs \<and> filter is_dispatch evs = [])"
proof (induction e rc attempts maxAttempts w rule: promptForToken.induct)
  case (1 e rc attempts maxAttempts w)
  show ?case
  proof (cases "maxAttempts \<le> attempts")
    case True
    then show ?thesis using "1.prems" by (auto simp: promptForToken_exit)
  next
    case False
    obtain name token w1 where a: "ask_credentials e w = ((name, token), w1)"
      by (metis surj_pair)
    obtain ok w2 where c: "checkCredentials e token w1 = (Return ok, w2)"
      using checkCredentials_result by (metis surj_pair)
    note ar = ask_credentials_result [OF a]
    note cr = checkCredentials_result [OF c]
    have w2: "github w2 = github w"
      "\<exists>evs. trace w2 = trace w @ evs \<and> filter is_dispatch evs = []"
      using ar cr by (auto split: sum.splits js_error.splits)
    show ?thesis
    proof (cases ok)
      case True
      obtain save w3 where s: "ask_save e w2 = (save, w3)" by (metis surj_pair)
      note sr = ask_save_result [OF s]
      have "promptForToken e rc attempts maxAttempts w
         = (Return token,
            if save
            then netrc_save e (AList.update (str ''github.com'')
                   \<lparr>machine = None, account = None, login = Some name,
                    password = Some token, macdef = None\<rparr> rc) w3
            else w3)"
        using False a c s True by (intro promptForToken_accept) auto
      then show ?thesis using "1.prems" sr w2 by (auto split: if_splits)
    next
      case False
      have "promptForToken e rc attempts maxAttempts w = promptForToken e rc (attempts + 1) 3 w2"
        using \<open>\<not> maxAttempts \<le> attempts\<close> a c False by (intro promptForToken_retry) auto
      then have "promptForToken e rc (attempts + 1) 3 w2 = (out, w')" using "1.prems" by simp
      with "1.IH" [OF \<open>\<not> maxAttempts \<le> attempts\<close> a [symmetric] refl c [symmetric] refl] False
      have "github w' = github w2 \<and> (\<exists>evs. trace w' = trace w2 @ evs \<and> filter is_dispatch evs = [])"
        by simp
      then show ?thesis using w2 by auto
    qed
  qed
qed

lemma await_frame:
  assumes "await m f w = (out, w')"
    and m: "\<And>o1 w1. m w = (o1, w1) \<Longrightarrow> github w1 = github w
              \<and> (\<exists>evs. trace w1 = trace w @ evs \<and> filter is_dispatch evs = [])"
    and f: "\<And>a w1. m w = (Return a, w1) \<Longrightarrow> f a w1 = (out, w') \<Longrightarrow> github w' = github w1
              \<and> (\<exists>evs. trace w' = trace w1 @ evs \<and> filter is_dispatch evs = [])"
  shows "github w' = github w \<and> (\<exists>evs. trace w' = trace w @ evs \<and> filter is_dispatch evs = [])"
proof -
  obtain o1 w1 where r: "m w = (o1, w1)" by (cases "m w")
  note m1 = m [OF r]
  show ?thesis
  proof (cases o1)
    case (Return a)
    then have "f a w1 = (out, w')" using assms(1) r by (simp add: await_def)
    from f [OF r [unfolded Return] this] m1 show ?thesis by auto
  next
    case (Throw err)
    then have "w' = w1" using assms(1) r by (simp add: await_def)
    then show ?thesis using m1 by simp
  next
    case (Exit n)
    then have "w' = w1" using assms(1) r by (simp add: await_def)
    then show ?thesis using m1 by simp
  qed
qed

lemma getToken_frame:
  "getToken e w = (out, w') \<Longrightarrow>
     github w' = github w \<and> (\<exists>evs. trace w' = trace w @ evs \<and> filter is_dispatch evs = [])"
  by (auto simp: getToken_def Let_def split: option.splits if_splits dest: promptForToken_frame)

lemma checkCredentials_frame:
  "checkCredentials e token w = (out, w') \<Longrightarrow>
     github w' = github w \<and> (\<exists>evs. trace w' = trace w @ evs \<and> filter is_dispatch evs = [])"
  by (drule checkCredentials_result) (auto split: sum.splits js_error.splits)

lemma getGithubAPI_frame:
  assumes "getGithubAPI e w = (out, w')"
  shows "github w' = github w \<and> (\<exists>evs. trace w' = trace w @ evs \<and> filter is_dispatch evs = [])"
proof (cases "github w")
  case (Some api)
  then show ?thesis using assms by (simp add: getGithubAPI_def)
next
  case None
  let ?k3 = "\<lambda>token' w'. (case new_Octokit token' w' of (api, w'') \<Rightarrow> (Return api, w''))"
  let ?k2 = "\<lambda>token ok. await (if \<not> ok then (\<lambda>w'. promptForToken e (netrc_file w') 0 3 w')
                 else (\<lambda>w'. (Return token, w'))) ?k3"
  let ?k1 = "\<lambda>token. await (checkCredentials e token) (?k2 token)"
  have run: "await (getToken e) ?k1 w = (out, w')"
    using assms None by (simp add: getGithubAPI_def)
  show ?thesis
  proof (rule await_frame [OF run])
    show "\<And>o1 w1. getToken e w = (o1, w1) \<Longrightarrow> github w1 = github w
              \<and> (\<exists>evs. trace w1 = trace w @ evs \<and> filter is_dispatch evs = [])"
      by (rule getToken_frame)
  next
    fix token w1 assume "?k1 token w1 = (out, w')"
    then show "github w' = github w1
              \<and> (\<exists>evs. trace w' = trace w1 @ evs \<and> filter is_dispatch evs = [])"
    proof (rule await_frame)
      show "\<And>o1 w2. checkCredentials e token w1 = (o1, w2) \<Longrightarrow> github w2 = github w1
              \<and> (\<exists>evs. trace w2 = trace w1 @ evs \<and> filter is_dispatch evs = [])"
        by (rule checkCredentials_frame)
    next
      fix ok w2 assume "?k2 token ok w2 = (out, w')"
      then show "github w' = github w2
              \<and> (\<exists>evs. trace w' = trace w2 @ evs \<and> filter is_dispatch evs = [])"
      proof (rule await_frame)
        show "\<And>o1 w3. (if \<not> ok then (\<lambda>w'. promptForToken e (netrc_file w') 0 3 w')
                 else (\<lambda>w'. (Return token, w'))) w2 = (o1, w3) \<Longrightarrow> github w3 = github w2
              \<and> (\<exists>evs. trace w3 = trace w2 @ evs \<and> filter is_dispatch evs = [])"
          by (auto split: if_splits dest: promptForToken_frame)
      next
        fix token' w3 assume "?k3 token' w3 = (out, w')"
        then show "github w' = github w3
              \<and> (\<exists>evs. trace w' = trace w3 @ evs \<and> filter is_dispatch evs = [])"
          by (auto simp: new_Octokit_def)
      qed
    qed
  qed
qed

lemma stored_token_selected:
  assumes "opt_password rc (str ''github.com'') = Some t
           \<or> (opt_password rc (str ''github.com'') = None
               \<and> opt_password rc (str ''api.github.com'') = Some t)"
  shows "stored_token rc = Some t"
  using assms by (auto simp: stored_token_def)

section \<open>checkCredentials never throws\<close>

text \<open>
  Claim C8. For every token and every answer of the remote call, checkCredentials
  returns normally: \<open>true\<close> exactly when the call succeeded. One request is sent; after
  a failure the message of the error is written once, behind a \<open>!\<close>, and nothing is
  written after a success.
\<close>

theorem checkCredentials_never_throws:
  "\<exists>w'. checkCredentials e token w
           = (Return (\<not> isl (getAuthenticated e (trace w) (str ''token '' @ token))), w')
       \<and> trace w' = trace w @ GetAuthenticated (str ''token '' @ token) #
           (case getAuthenticated e (trace w) (str ''token '' @ token) of
              Inr u \<Rightarrow> []
            | Inl (Error msg) \<Rightarrow> [Write [str ''!'', msg]])"
proof -
  obtain out w' where r: "checkCredentials e token w = (out, w')"
    by (cases "checkCredentials e token w")
  note checkCredentials_result [OF r]
  then show ?thesis using r by (intro exI [of _ w']) simp
qed

theorem checkCredentials_never_throws_witness:
  "getAuthenticated accepting_env (trace (fresh_process [])) (str ''token '' @ str ''ghp_valid'')
     = Inr ()
   \<and> fst (checkCredentials accepting_env (str ''ghp_valid'') (fresh_process [])) = Return True
   \<and> getAuthenticated accepting_env (trace (fresh_process [])) (str ''token '' @ str ''ghp_stale'')
     = Inl (Error (str ''Bad credentials''))
   \<and> fst (checkCredentials accepting_env (str ''ghp_stale'') (fresh_process [])) = Return False
   \<and> trace (snd (checkCredentials accepting_env (str ''ghp_stale'') (fresh_process [])))
     = [GetAuthenticated (str ''token '' @ str ''ghp_stale''),
        Write [str ''!'', str ''Bad credentials'']]"
proof -
  have a: "getAuthenticated accepting_env (trace (fresh_process []))
             (str ''token '' @ str ''ghp_valid'') = Inr ()"
    by code_simp
  have b: "getAuthenticated accepting_env (trace (fresh_process []))
             (str ''token '' @ str ''ghp_stale'') = Inl (Error (str ''Bad credentials''))"
    by code_simp
  from checkCredentials_never_throws [of accepting_env "str ''ghp_valid''" "fresh_process []"]
  have 1: "fst (checkCredentials accepting_env (str ''ghp_valid'') (fresh_process [])) = Return True"
    unfolding a by auto
  from checkCredentials_never_throws [of accepting_env "str ''ghp_stale''" "fresh_process []"]
  have 2: "fst (checkCredentials accepting_env (str ''ghp_stale'') (fresh_process [])) = Return False
     \<and> trace (snd (checkCredentials accepting_env (str ''ghp_stale'') (fresh_process [])))
     = [GetAuthenticated (str ''token '' @ str ''ghp_stale''),
        Write [str ''!'', str ''Bad credentials'']]"
    unfolding b by (auto simp: fresh_process_def)
  show ?thesis using a b 1 2 by blast
qed

section \<open>The prompt gives up after three rejected tokens\<close>

text \<open>
  Claim C5. When promptForToken starts at attempt 0 (the module calls it with the
  defaults, attempt 0 and bound 3; any bound of at least 1 gives the same run) and the
  next three rounds each end with a rejected token, the process exits with status 1;
  the last thing it writes is the message \<open>Too many attempts\<close>; nothing is saved
  during the run and the credential file is as it was.
\<close>

theorem promptForToken_too_many_attempts:
  assumes "1 \<le> maxAttempts" and "attempts_fail 3 e w"
  shows "\<exists>w' evs. promptForToken e rc 0 maxAttempts w = (Exit 1, w')
           \<and> trace w' = trace w @ evs @ [Write [[0x2715], str ''Too many attempts'']]
           \<and> filter is_save evs = []
           \<and> netrc_file w' = netrc_file w"
  using failing_rounds [OF assms(2), of 0 rc] promptForToken_first_bound [OF assms(1), of e rc w]
  by auto

theorem promptForToken_too_many_attempts_witness:
  "(1::int) \<le> 3
   \<and> attempts_fail 3 rejecting_env (fresh_process stored_other)
   \<and> fst (promptForToken rejecting_env stored_other 0 3 (fresh_process stored_other)) = Exit 1
   \<and> netrc_file (snd (promptForToken rejecting_env stored_other 0 3 (fresh_process stored_other)))
       = stored_other
   \<and> filter is_save
         (trace (snd (promptForToken rejecting_env stored_other 0 3 (fresh_process stored_other))))
       = []
   \<and> last (trace (snd (promptForToken rejecting_env stored_other 0 3 (fresh_process stored_other))))
       = Write [[0x2715], str ''Too many attempts'']"
proof -
  have h: "attempts_fail 3 rejecting_env (fresh_process stored_other)" by code_simp
  have m: "(1::int) \<le> 3" by simp
  from promptForToken_too_many_attempts [OF m h, of stored_other] obtain w' evs where
    r: "promptForToken rejecting_env stored_other 0 3 (fresh_process stored_other) = (Exit 1, w')"
    and t: "trace w' = trace (fresh_process stored_other) @ evs
                 @ [Write [[0x2715], str ''Too many attempts'']]"
    and s: "filter is_save evs = []"
    and f: "netrc_file w' = netrc_file (fresh_process stored_other)"
    by (elim exE conjE)
  show ?thesis using m h r t s f by (simp add: fresh_process_def)
qed

text \<open>
  Claim C9. The recursive call does not pass \<open>maxAttempts\<close> on. A first call with any
  bound \<open>m\<close> of at least 1 behaves exactly as a call with the bound 3, and when the
  tokens of three rounds are rejected the process exits after exactly three prompts
  and three validations, whatever \<open>m\<close> is.
\<close>

theorem promptForToken_maxAttempts_not_propagated:
  assumes "1 \<le> m"
  shows "promptForToken e rc 0 m w = promptForToken e rc 0 3 w
         \<and> (attempts_fail 3 e w \<longrightarrow>
              (\<exists>w' evs. promptForToken e rc 0 m w = (Exit 1, w')
                 \<and> trace w' = trace w @ evs @ [Write [[0x2715], str ''Too many attempts'']]
                 \<and> length (filter is_credentials_prompt evs) = 3
                 \<and> length (filter is_validation evs) = 3))"
proof
  show eq: "promptForToken e rc 0 m w = promptForToken e rc 0 3 w"
    using assms by (rule promptForToken_first_bound)
  show "attempts_fail 3 e w \<longrightarrow>
              (\<exists>w' evs. promptForToken e rc 0 m w = (Exit 1, w')
                 \<and> trace w' = trace w @ evs @ [Write [[0x2715], str ''Too many attempts'']]
                 \<and> length (filter is_credentials_prompt evs) = 3
                 \<and> length (filter is_validation evs) = 3)"
  proof
    assume "attempts_fail 3 e w"
    from failing_rounds [OF this, of 0 rc] show "\<exists>w' evs. promptForToken e rc 0 m w = (Exit 1, w')
                 \<and> trace w' = trace w @ evs @ [Write [[0x2715], str ''Too many attempts'']]
                 \<and> length (filter is_credentials_prompt evs) = 3
                 \<and> length (filter is_validation evs) = 3"
      unfolding eq by auto
  qed
qed

theorem promptForToken_maxAttempts_not_propagated_witness:
  "(1::int) \<le> 1
   \<and> attempts_fail 3 rejecting_env (fresh_process [])
   \<and> promptForToken rejecting_env [] 0 1 (fresh_process [])
       = promptForToken rejecting_env [] 0 3 (fresh_process [])
   \<and> fst (promptForToken rejecting_env [] 0 1 (fresh_process [])) = Exit 1
   \<and> length (filter is_credentials_prompt
               (trace (snd (promptForToken rejecting_env [] 0 1 (fresh_process []))))) = 3
   \<and> length (filter is_validation
               (trace (snd (promptForToken rejecting_env [] 0 1 (fresh_process []))))) = 3"
proof -
  have m: "(1::int) \<le> 1" by simp
  have h: "attempts_fail 3 rejecting_env (fresh_process [])" by code_simp
  note inst = promptForToken_maxAttempts_not_propagated [OF m, of rejecting_env "[]" "fresh_process []"]
  from inst h obtain w' evs where
    r: "promptForToken rejecting_env [] 0 1 (fresh_process []) = (Exit 1, w')"
    and t: "trace w' = trace (fresh_process []) @ evs
                 @ [Write [[0x2715], str ''Too many attempts'']]"
    and p: "length (filter is_credentials_prompt evs) = 3"
    and v: "length (filter is_validation evs) = 3"
    by blast
  have eq: "promptForToken rejecting_env [] 0 1 (fresh_process [])
       = promptForToken rejecting_env [] 0 3 (fresh_process [])"
    using inst by (rule conjunct1)
  show ?thesis using m h eq r t p v by (simp add: fresh_process_def)
qed

section \<open>Saving the token\<close>

text \<open>
  Claim C7. Whenever promptForToken returns a token, the run ends with the round in
  which that token was entered and accepted, followed by the question whether to save.
  If the answer is yes, the credential file is rewritten once, by one call of
  \<open>netrc.save\<close>: the object written holds the entered login and token under
  \<open>github.com\<close>, and for every other host the entry it has in the records passed in;
  what \<open>netrc()\<close> reads afterwards is what the library reads back from that object. If
  the answer is no, nothing is saved and the file is unchanged. Nothing is saved in the
  rounds before.
\<close>

theorem promptForToken_save_on_confirmation:
  assumes "promptForToken e rc attempts maxAttempts w = (Return token, w')"
  shows "\<exists>name save saved evs.
           trace w' = trace w @ evs
              @ [PromptCredentials name token, GetAuthenticated (str ''token '' @ token),
                 PromptSave save]
              @ (if save then [NetrcSave saved] else [])
         \<and> filter is_save evs = []
         \<and> (if save
            then map_of saved (str ''github.com'')
                   = Some \<lparr>machine = None, account = None, login = Some name,
                           password = Some token, macdef = None\<rparr>
               \<and> (\<forall>host. host \<noteq> str ''github.com'' \<longrightarrow> map_of saved host = map_of rc host)
               \<and> netrc_file w' = netrc_reread e saved
            else netrc_file w' = netrc_file w)"
  using assms
proof (induction e rc attempts maxAttempts w rule: promptForToken.induct)
  case (1 e rc attempts maxAttempts w)
  have lt: "\<not> maxAttempts \<le> attempts"
    using "1.prems" by (auto simp: promptForToken_exit)
  obtain name tok w1 where a: "ask_credentials e w = ((name, tok), w1)"
    by (metis surj_pair)
  obtain o2 w2 where c0: "checkCredentials e tok w1 = (o2, w2)"
    by (cases "checkCredentials e tok w1")
  note ar = ask_credentials_result [OF a]
  note cr = checkCredentials_result [OF c0]
  obtain ok where ok: "o2 = Return ok" using cr by simp
  have c: "checkCredentials e tok w1 = (Return ok, w2)" using c0 ok by simp
  show ?case
  proof (cases ok)
    case True
    obtain save w3 where s: "ask_save e w2 = (save, w3)" by (metis surj_pair)
    note sr = ask_save_result [OF s]
    let ?new = "AList.update (str ''github.com'')
                   \<lparr>machine = None, account = None, login = Some name,
                    password = Some tok, macdef = None\<rparr> rc"
    have run: "promptForToken e rc attempts maxAttempts w
         = (Return tok, if save then netrc_save e ?new w3 else w3)"
      using lt a c s True by (intro promptForToken_accept) auto
    then have tok: "tok = token" and w': "w' = (if save then netrc_save e ?new w3 else w3)"
      using "1.prems" by auto
    have ga: "\<not> isl (getAuthenticated e (trace w1) (str ''token '' @ tok))"
      using cr ok True by simp
    then have tr2: "trace w2 = trace w1 @ [GetAuthenticated (str ''token '' @ tok)]"
      using cr by (auto split: sum.splits)
    have tr3: "trace w3 = trace w @ [] @ [PromptCredentials name token,
                 GetAuthenticated (str ''token '' @ token), PromptSave save]"
      using ar tr2 sr tok by simp
    have file3: "netrc_file w3 = netrc_file w" using ar cr sr by simp
    show ?thesis
    proof (intro exI [of _ name] exI [of _ save] exI [of _ ?new] exI [of _ "[]"] conjI)
      show "trace w' = trace w @ [] @ [PromptCredentials name token,
                 GetAuthenticated (str ''token '' @ token), PromptSave save]
              @ (if save then [NetrcSave ?new] else [])"
        using tr3 w' by simp
      show "filter is_save [] = []" by simp
      show "if save
            then map_of ?new (str ''github.com'')
                   = Some \<lparr>machine = None, account = None, login = Some name,
                           password = Some token, macdef = None\<rparr>
               \<and> (\<forall>host. host \<noteq> str ''github.com'' \<longrightarrow> map_of ?new host = map_of rc host)
               \<and> netrc_file w' = netrc_reread e ?new
            else netrc_file w' = netrc_file w"
        using w' file3 tok by (simp add: update_conv')
    qed
  next
    case False
    have okF: "ok = False" using False by simp
    have cF: "checkCredentials e tok w1 = (Return False, w2)" using c okF by simp
    have "promptForToken e rc attempts maxAttempts w = promptForToken e rc (attempts + 1) 3 w2"
      using lt a cF by (intro promptForToken_retry) auto
    then have "promptForToken e rc (attempts + 1) 3 w2 = (Return token, w')"
      using "1.prems" by simp
    from "1.IH" [OF lt a [symmetric] refl c0 [symmetric] ok okF this]
    obtain name' save saved evs where ih:
      "trace w' = trace w2 @ evs
              @ [PromptCredentials name' token, GetAuthenticated (str ''token '' @ token),
                 PromptSave save]
              @ (if save then [NetrcSave saved] else [])"
      "filter is_save evs = []"
      "if save
            then map_of saved (str ''github.com'')
                   = Some \<lparr>machine = None, account = None, login = Some name',
                           password = Some token, macdef = None\<rparr>
               \<and> (\<forall>host. host \<noteq> str ''github.com'' \<longrightarrow> map_of saved host = map_of rc host)
               \<and> netrc_file w' = netrc_reread e saved
            else netrc_file w' = netrc_file w2"
      by (elim exE conjE) (rule that)
    from failed_round [OF a cF] obtain msg where
      fr: "netrc_file w2 = netrc_file w"
        "trace w2 = trace w @ [PromptCredentials name tok,
                      GetAuthenticated (str ''token '' @ tok), Write [str ''!'', msg]]"
      by (elim exE conjE) (rule that)
    let ?evs = "[PromptCredentials name tok,
                      GetAuthenticated (str ''token '' @ tok), Write [str ''!'', msg]] @ evs"
    show ?thesis
    proof (intro exI [of _ name'] exI [of _ save] exI [of _ saved] exI [of _ ?evs] conjI)
      show "trace w' = trace w @ ?evs @ [PromptCredentials name' token,
                 GetAuthenticated (str ''token '' @ token), PromptSave save]
              @ (if save then [NetrcSave saved] else [])"
        using ih(1) fr(2) by simp
      show "filter is_save ?evs = []" using ih(2) by simp
      show "if save
            then map_of saved (str ''github.com'')
                   = Some \<lparr>machine = None, account = None, login = Some name',
                           password = Some token, macdef = None\<rparr>
               \<and> (\<forall>host. host \<noteq> str ''github.com'' \<longrightarrow> map_of saved host = map_of rc host)
               \<and> netrc_file w' = netrc_reread e saved
            else netrc_file w' = netrc_file w"
        using ih(3) fr(1) by simp
    qed
  qed
qed

theorem promptForToken_save_on_confirmation_witness:
  "fst (promptForToken saving_env stored_other 0 3 (fresh_process stored_other))
     = Return (str ''ghp_valid'')
   \<and> filter is_save
        (trace (snd (promptForToken saving_env stored_other 0 3 (fresh_process stored_other))))
     = [NetrcSave [(str ''gitlab.com'', login_entry (str ''me'') (str ''glpat'')),
                   (str ''github.com'', login_entry (str ''octocat'') (str ''ghp_valid''))]]
   \<and> fst (promptForToken accepting_env stored_other 0 3 (fresh_process stored_other))
     = Return (str ''ghp_valid'')
   \<and> filter is_save
        (trace (snd (promptForToken accepting_env stored_other 0 3 (fresh_process stored_other))))
     = []
   \<and> netrc_file (snd (promptForToken accepting_env stored_other 0 3 (fresh_process stored_other)))
     = stored_other"
proof -
  let ?R = "promptForToken saving_env stored_other 0 3 (fresh_process stored_other)"
  let ?Q = "promptForToken accepting_env stored_other 0 3 (fresh_process stored_other)"
  let ?S = "[(str ''gitlab.com'', login_entry (str ''me'') (str ''glpat'')),
             (str ''github.com'', login_entry (str ''octocat'') (str ''ghp_valid''))]"
  have fR: "fst ?R = Return (str ''ghp_valid'')" and fQ: "fst ?Q = Return (str ''ghp_valid'')"
    by code_simp+
  have lR: "last (trace (snd ?R)) \<noteq> PromptSave False"
    and lQ: "last (trace (snd ?Q)) = PromptSave False"
    by code_simp+
  have runR: "?R = (Return (str ''ghp_valid''), snd ?R)" using fR by (simp add: prod_eq_iff)
  have runQ: "?Q = (Return (str ''ghp_valid''), snd ?Q)" using fQ by (simp add: prod_eq_iff)
  from promptForToken_save_on_confirmation [OF runR] obtain name save saved evs where
    t: "trace (snd ?R) = trace (fresh_process stored_other) @ evs
              @ [PromptCredentials name (str ''ghp_valid''),
                 GetAuthenticated (str ''token '' @ str ''ghp_valid''), PromptSave save]
              @ (if save then [NetrcSave saved] else [])"
    and e: "filter is_save evs = []"
    and c: "if save
            then map_of saved (str ''github.com'')
                   = Some \<lparr>machine = None, account = None, login = Some name,
                           password = Some (str ''ghp_valid''), macdef = None\<rparr>
               \<and> (\<forall>host. host \<noteq> str ''github.com''
                     \<longrightarrow> map_of saved host = map_of stored_other host)
               \<and> netrc_file (snd ?R) = netrc_reread saving_env saved
            else netrc_file (snd ?R) = netrc_file (fresh_process stored_other)"
    by (elim exE conjE)
  have save: save
  proof (rule ccontr)
    assume "\<not> save"
    then have "last (trace (snd ?R)) = PromptSave False" using t by simp
    then show False using lR by simp
  qed
  have one: "filter is_save (trace (snd ?R)) = [NetrcSave saved]"
    using t e save by (simp add: fresh_process_def)
  have sv: "last (trace (snd ?R)) = NetrcSave ?S" by code_simp
  have "last (trace (snd ?R)) = NetrcSave saved" using t save by simp
  then have "saved = ?S" using sv by simp
  then have r1: "filter is_save (trace (snd ?R)) = [NetrcSave ?S]" using one by simp
  from promptForToken_save_on_confirmation [OF runQ] obtain name' save' saved' evs' where
    t': "trace (snd ?Q) = trace (fresh_process stored_other) @ evs'
              @ [PromptCredentials name' (str ''ghp_valid''),
                 GetAuthenticated (str ''token '' @ str ''ghp_valid''), PromptSave save']
              @ (if save' then [NetrcSave saved'] else [])"
    and e': "filter is_save evs' = []"
    and c': "if save'
            then map_of saved' (str ''github.com'')
                   = Some \<lparr>machine = None, account = None, login = Some name',
                           password = Some (str ''ghp_valid''), macdef = None\<rparr>
               \<and> (\<forall>host. host \<noteq> str ''github.com''
                     \<longrightarrow> map_of saved' host = map_of stored_other host)
               \<and> netrc_file (snd ?Q) = netrc_reread accepting_env saved'
            else netrc_file (snd ?Q) = netrc_file (fresh_process stored_other)"
    by (elim exE conjE)
  have ns: "\<not> save'"
  proof
    assume save'
    then have "last (trace (snd ?Q)) = NetrcSave saved'" using t' by simp
    then show False using lQ by simp
  qed
  then have r3: "netrc_file (snd ?Q) = stored_other" using c' by (simp add: fresh_process_def)
  have r2: "filter is_save (trace (snd ?Q)) = []"
    using t' e' ns by (simp add: fresh_process_def)
  show ?thesis using fR fQ r1 r2 r3 by blast
qed

section \<open>getGithubAPI with a stored token\<close>

text \<open>
  Claim C6, as the code has it. The token that getGithubAPI takes from the credential
  file is the password of the \<open>github.com\<close> entry, and the password of the
  \<open>api.github.com\<close> entry only when \<open>github.com\<close> has none. If that token is not
  empty and the remote API accepts it, getGithubAPI returns a client without asking
  anything at the terminal.
\<close>

theorem getGithubAPI_valid_stored_token_no_prompt:
  assumes sel: "opt_password (netrc_file w) (str ''github.com'') = Some t
           \<or> (opt_password (netrc_file w) (str ''github.com'') = None
               \<and> opt_password (netrc_file w) (str ''api.github.com'') = Some t)"
    and ne: "t \<noteq> []"
    and ok: "getAuthenticated e (trace w) (str ''token '' @ t) = Inr u"
  shows "\<exists>api w'. getGithubAPI e w = (Return api, w')
           \<and> filter is_prompt (trace w') = filter is_prompt (trace w)"
proof (cases "github w")
  case (Some api)
  then show ?thesis by (simp add: getGithubAPI_def)
next
  case None
  have tok: "getToken e w = (Return t, w)"
    using stored_token_selected [OF sel] ne by (simp add: getToken_def)
  obtain o2 w2 where c: "checkCredentials e t w = (o2, w2)"
    by (cases "checkCredentials e t w")
  note cr = checkCredentials_result [OF c]
  have c': "checkCredentials e t w = (Return True, w2)" using c cr ok by simp
  have tr: "trace w2 = trace w @ [GetAuthenticated (str ''token '' @ t)]" using cr ok by simp
  obtain api w3 where n: "new_Octokit t w2 = (api, w3)" by (cases "new_Octokit t w2")
  then have tr3: "trace w3 = trace w2" by (auto simp: new_Octokit_def)
  have "getGithubAPI e w = (Return api, w3)"
    using None tok c' n by (simp add: getGithubAPI_def await_def)
  then show ?thesis using tr tr3 by simp
qed

theorem getGithubAPI_valid_stored_token_no_prompt_witness:
  "opt_password (netrc_file (fresh_process stored_valid)) (str ''github.com'')
     = Some (str ''ghp_valid'')
   \<and> getAuthenticated accepting_env (trace (fresh_process stored_valid))
        (str ''token '' @ str ''ghp_valid'') = Inr ()
   \<and> filter is_prompt (trace (snd (getGithubAPI accepting_env (fresh_process stored_valid)))) = []
   \<and> opt_password (netrc_file (fresh_process stored_valid_api)) (str ''github.com'') = None
   \<and> opt_password (netrc_file (fresh_process stored_valid_api)) (str ''api.github.com'')
     = Some (str ''ghp_valid'')
   \<and> filter is_prompt (trace (snd (getGithubAPI accepting_env (fresh_process stored_valid_api))))
     = []"
proof -
  have p1: "opt_password (netrc_file (fresh_process stored_valid)) (str ''github.com'')
     = Some (str ''ghp_valid'')"
    by code_simp
  have p2: "opt_password (netrc_file (fresh_process stored_valid_api)) (str ''github.com'') = None"
    and p3: "opt_password (netrc_file (fresh_process stored_valid_api)) (str ''api.github.com'')
     = Some (str ''ghp_valid'')"
    by code_simp+
  have ne: "str ''ghp_valid'' \<noteq> []" by (simp add: str_def)
  have a1: "getAuthenticated accepting_env (trace (fresh_process stored_valid))
        (str ''token '' @ str ''ghp_valid'') = Inr ()"
    and a2: "getAuthenticated accepting_env (trace (fresh_process stored_valid_api))
        (str ''token '' @ str ''ghp_valid'') = Inr ()"
    by code_simp+
  from getGithubAPI_valid_stored_token_no_prompt [OF disjI1 [OF p1] ne a1]
  have r1: "filter is_prompt (trace (snd (getGithubAPI accepting_env (fresh_process stored_valid)))) = []"
    by (auto simp: fresh_process_def)
  from getGithubAPI_valid_stored_token_no_prompt [OF disjI2 [OF conjI [OF p2 p3]] ne a2]
  have r2: "filter is_prompt (trace (snd (getGithubAPI accepting_env (fresh_process stored_valid_api)))) = []"
    by (auto simp: fresh_process_def)
  show ?thesis using p1 p2 p3 a1 r1 r2 by blast
qed

text \<open>
  Claim C6, as it is stated, fails when a stale token under \<open>github.com\<close> stands in
  front of a valid token under \<open>api.github.com\<close>: the file contains a token for
  \<open>api.github.com\<close> that the remote API accepts, and still the person is asked for
  credentials.
\<close>

theorem getGithubAPI_stored_token_counterexample:
  "opt_password (netrc_file (fresh_process stored_shadowed)) (str ''api.github.com'')
     = Some (str ''ghp_valid'')
   \<and> getAuthenticated accepting_env (trace (fresh_process stored_shadowed))
        (str ''token '' @ str ''ghp_valid'') = Inr ()
   \<and> filter is_prompt (trace (snd (getGithubAPI accepting_env (fresh_process stored_shadowed))))
     = [PromptCredentials (str ''octocat'') (str ''ghp_valid''), PromptSave False]"
  by code_simp

section \<open>dispatchEvent\<close>

text \<open>
  Claim C3. When getGithubAPI returns a client and the remote call succeeds,
  dispatchEvent on a repository reference issues exactly one createDispatchEvent call,
  with the owner, the repository and the event type it was given, and returns a message
  that contains \<open>owner/repo\<close> and the event type. A reference without \<open>repoId\<close> is
  treated as one whose \<open>repoId\<close> is \<open>owner/repo\<close>, and a path is first resolved by
  resolveGithubProject, whose error is thrown if it fails.
\<close>

theorem dispatchEvent_dispatches_once:
  assumes api: "getGithubAPI e w = (Return api, w1)"
    and ok: "createDispatchEvent e (trace w1) (auth api) ow rp ev = Inr u"
  shows "(\<exists>r w'. dispatchEvent e (Ref \<lparr>owner = ow, repo = rp\<rparr> None) ev w = (Return r, w')
            \<and> message r = str ''('' @ ow @ str ''/'' @ rp @ str '') '' @ ev @ str '' event dispatched.''
            \<and> sublist (ow @ str ''/'' @ rp) (message r) \<and> sublist ev (message r)
            \<and> filter is_dispatch (trace w')
                = filter is_dispatch (trace w) @ [CreateDispatchEvent (auth api) ow rp ev])
       \<and> dispatchEvent e (Ref \<lparr>owner = ow, repo = rp\<rparr> None) ev w
          = dispatchEvent e (Ref \<lparr>owner = ow, repo = rp\<rparr> (Some (ow @ str ''/'' @ rp))) ev w
       \<and> dispatchEvent e (Path dir) ev w
          = (case resolveGithubProject e (Some dir) of
               Inl err \<Rightarrow> (Throw err, w)
             | Inr d \<Rightarrow> dispatchEvent e (Ref \<lparr>owner = owner d, repo = repo d\<rparr> (Some (repoId d))) ev w)"
proof (intro conjI)
  let ?msg = "str ''('' @ ow @ str ''/'' @ rp @ str '') '' @ ev @ str '' event dispatched.''"
  let ?w' = "emit (CreateDispatchEvent (auth api) ow rp ev) w1"
  have run: "dispatchEvent e (Ref \<lparr>owner = ow, repo = rp\<rparr> None) ev w
             = (Return \<lparr>message = ?msg\<rparr>, ?w')"
    using api ok by (simp add: dispatchEvent_def await_def Let_def)
  from getGithubAPI_frame [OF api] obtain evs where
    evs: "trace w1 = trace w @ evs" "filter is_dispatch evs = []" by blast
  have s1: "sublist (ow @ str ''/'' @ rp) ?msg"
    unfolding sublist_def by (rule exI [of _ "str ''(''"], rule exI [of _ "str '') '' @ ev @ str '' event dispatched.''"]) simp
  have s2: "sublist ev ?msg"
    unfolding sublist_def by (rule exI [of _ "str ''('' @ ow @ str ''/'' @ rp @ str '') ''"], rule exI [of _ "str '' event dispatched.''"]) simp
  show "\<exists>r w'. dispatchEvent e (Ref \<lparr>owner = ow, repo = rp\<rparr> None) ev w = (Return r, w')
            \<and> message r = ?msg
            \<and> sublist (ow @ str ''/'' @ rp) (message r) \<and> sublist ev (message r)
            \<and> filter is_dispatch (trace w')
                = filter is_dispatch (trace w) @ [CreateDispatchEvent (auth api) ow rp ev]"
    using run s1 s2 evs by (intro exI [of _ "\<lparr>message = ?msg\<rparr>"] exI [of _ ?w']) simp
  show "dispatchEvent e (Ref \<lparr>owner = ow, repo = rp\<rparr> None) ev w
          = dispatchEvent e (Ref \<lparr>owner = ow, repo = rp\<rparr> (Some (ow @ str ''/'' @ rp))) ev w"
    by (simp add: dispatchEvent_def Let_def cong: sum.case_cong)
  show "dispatchEvent e (Path dir) ev w
          = (case resolveGithubProject e (Some dir) of
               Inl err \<Rightarrow> (Throw err, w)
             | Inr d \<Rightarrow> dispatchEvent e (Ref \<lparr>owner = owner d, repo = repo d\<rparr> (Some (repoId d))) ev w)"
    by (simp add: dispatchEvent_def Let_def split: sum.splits)
qed

theorem dispatchEvent_dispatches_once_witness:
  "fst (getGithubAPI accepting_env (fresh_process stored_valid))
     = Return \<lparr>ident = 1, auth = str ''token ghp_valid''\<rparr>
   \<and> fst (dispatchEvent accepting_env (Ref \<lparr>owner = str ''a'', repo = str ''b''\<rparr> None) (str ''go'')
            (fresh_process stored_valid))
     = Return \<lparr>message = str ''(a/b) go event dispatched.''\<rparr>
   \<and> sublist (str ''a/b'') (str ''(a/b) go event dispatched.'')
   \<and> sublist (str ''go'') (str ''(a/b) go event dispatched.'')
   \<and> filter is_dispatch
        (trace (snd (dispatchEvent accepting_env (Ref \<lparr>owner = str ''a'', repo = str ''b''\<rparr> None)
                       (str ''go'') (fresh_process stored_valid))))
     = [CreateDispatchEvent (str ''token ghp_valid'') (str ''a'') (str ''b'') (str ''go'')]"
proof -
  let ?W = "fresh_process stored_valid"
  let ?api = "\<lparr>ident = 1, auth = str ''token ghp_valid''\<rparr>"
  let ?D = "dispatchEvent accepting_env (Ref \<lparr>owner = str ''a'', repo = str ''b''\<rparr> None)
              (str ''go'') ?W"
  have f: "fst (getGithubAPI accepting_env ?W) = Return ?api" by code_simp
  then have g: "getGithubAPI accepting_env ?W = (Return ?api, snd (getGithubAPI accepting_env ?W))"
    by (simp add: prod_eq_iff)
  have d: "createDispatchEvent accepting_env (trace (snd (getGithubAPI accepting_env ?W)))
             (auth ?api) (str ''a'') (str ''b'') (str ''go'') = Inr ()"
    by (simp add: accepting_env_def example_env_def)
  have m: "str ''('' @ str ''a'' @ str ''/'' @ str ''b'' @ str '') '' @ str ''go''
             @ str '' event dispatched.'' = str ''(a/b) go event dispatched.''"
    and ab: "str ''a'' @ str ''/'' @ str ''b'' = str ''a/b''"
    by (simp_all add: str_def)
  from dispatchEvent_dispatches_once [OF g d, of "str ''/work''"] obtain r w' where
    run: "?D = (Return r, w')"
    and msg: "message r = str ''('' @ str ''a'' @ str ''/'' @ str ''b'' @ str '') '' @ str ''go''
                            @ str '' event dispatched.''"
    and s1: "sublist (str ''a'' @ str ''/'' @ str ''b'') (message r)"
    and s2: "sublist (str ''go'') (message r)"
    and tr: "filter is_dispatch (trace w')
                = filter is_dispatch (trace ?W)
                  @ [CreateDispatchEvent (auth ?api) (str ''a'') (str ''b'') (str ''go'')]"
    by (elim exE conjE)
  have r: "r = \<lparr>message = str ''(a/b) go event dispatched.''\<rparr>"
    using msg m by (cases r) simp
  have 1: "fst ?D = Return \<lparr>message = str ''(a/b) go event dispatched.''\<rparr>"
    using run r by simp
  have 2: "sublist (str ''a/b'') (str ''(a/b) go event dispatched.'')"
    and 3: "sublist (str ''go'') (str ''(a/b) go event dispatched.'')"
    using s1 s2 msg m ab by simp_all
  have 4: "filter is_dispatch (trace (snd ?D))
     = [CreateDispatchEvent (str ''token ghp_valid'') (str ''a'') (str ''b'') (str ''go'')]"
    using run tr by (simp add: fresh_process_def)
  show ?thesis using f 1 2 3 4 by blast
qed

section \<open>getGithubAPI does not cache the client\<close>

text \<open>
  Claim C1 does not hold of the code. In a process whose credential file holds a valid
  token, the first call of getGithubAPI validates the token and returns a new client;
  the module variable is still unset afterwards, so the second call validates the token
  again and returns another new client, a different object.
\<close>

theorem getGithubAPI_not_memoized:
  "fst (getGithubAPI accepting_env (fresh_process stored_valid))
     = Return \<lparr>ident = 1, auth = str ''token ghp_valid''\<rparr>
   \<and> github (snd (getGithubAPI accepting_env (fresh_process stored_valid))) = None
   \<and> trace (snd (getGithubAPI accepting_env (fresh_process stored_valid)))
     = [GetAuthenticated (str ''token ghp_valid'')]
   \<and> fst (getGithubAPI accepting_env (snd (getGithubAPI accepting_env (fresh_process stored_valid))))
     = Return \<lparr>ident = 3, auth = str ''token ghp_valid''\<rparr>
   \<and> trace (snd (getGithubAPI accepting_env
                    (snd (getGithubAPI accepting_env (fresh_process stored_valid)))))
     = [GetAuthenticated (str ''token ghp_valid''), GetAuthenticated (str ''token ghp_valid'')]"
  by code_simp

end
